theory Spec2Isabelle
  imports Main "HOL-Library.Word"
begin

section \<open>LogDbgView: capturing OutputDebugString messages to a log file\<close>

text \<open>
  The development embeds \<^verbatim>\<open>logdbgview.py\<close>: the class \<^verbatim>\<open>LogDbgView\<close> (a
  session that does nothing), its subclass \<^verbatim>\<open>LogDbgViewReal\<close> (a
  \<^verbatim>\<open>threading.Thread\<close> that drains the DBWIN channel into a log file), the factory
  \<^verbatim>\<open>makeLogDbgView\<close> and the context-manager methods.

  The operating system is an explicit \<open>world\<close> value that every operation takes and
  returns: the files, the three events, the shared DBWIN buffer, the handles that are
  open, and the list of calls the controlling thread has made. A Python exception is a
  value of type \<open>exn\<close>; an operation that can raise returns the exception (if any) together with
  the state it leaves behind, because the effects made before a raise stay.
\<close>

subsection \<open>Bytes, text and exceptions\<close>

type_synonym byte = "8 word"

text \<open>A Python \<^verbatim>\<open>str\<close> is a sequence of Unicode code points.\<close>

type_synonym unicode = "nat list"

datatype exn =
    OSError
  | Win32Error
  | ValueError
  | RuntimeError
  | StructError
  | UnicodeDecodeError
  | UnicodeEncodeError
  | AttributeError

definition of_ascii :: "string \<Rightarrow> unicode" where
  "of_ascii s = map of_char s"

subsection \<open>\<^verbatim>\<open>str(data, 'UTF-8')\<close>\<close>

text \<open>
  The strict UTF-8 decoder of Python 3: a lead byte fixes the length of the sequence and
  the range of the second byte (no overlong forms, no surrogates, nothing above
  U+10FFFF); one ill-formed sequence anywhere makes the whole call raise
  \<^verbatim>\<open>UnicodeDecodeError\<close>.
\<close>

definition is_cont :: "byte \<Rightarrow> bool" where
  "is_cont b \<longleftrightarrow> 0x80 \<le> b \<and> b \<le> 0xBF"

definition cont_bits :: "byte \<Rightarrow> nat" where
  "cont_bits b = unat b - 0x80"

definition second_lo :: "byte \<Rightarrow> byte" where
  "second_lo b0 = (if b0 = 0xE0 then 0xA0 else if b0 = 0xF0 then 0x90 else 0x80)"

definition second_hi :: "byte \<Rightarrow> byte" where
  "second_hi b0 = (if b0 = 0xED then 0x9F else if b0 = 0xF4 then 0x8F else 0xBF)"

fun decode_one :: "byte list \<Rightarrow> (nat \<times> byte list) option" where
  "decode_one [] = None"
| "decode_one (b0 # bs) =
     (if b0 < 0x80 then Some (unat b0, bs)
      else if 0xC2 \<le> b0 \<and> b0 \<le> 0xDF then
        (case bs of
           b1 # r \<Rightarrow>
             if is_cont b1 then Some ((unat b0 - 0xC0) * 64 + cont_bits b1, r) else None
         | _ \<Rightarrow> None)
      else if 0xE0 \<le> b0 \<and> b0 \<le> 0xEF then
        (case bs of
           b1 # b2 # r \<Rightarrow>
             if second_lo b0 \<le> b1 \<and> b1 \<le> second_hi b0 \<and> is_cont b2
             then Some ((unat b0 - 0xE0) * 4096 + cont_bits b1 * 64 + cont_bits b2, r)
             else None
         | _ \<Rightarrow> None)
      else if 0xF0 \<le> b0 \<and> b0 \<le> 0xF4 then
        (case bs of
           b1 # b2 # b3 # r \<Rightarrow>
             if second_lo b0 \<le> b1 \<and> b1 \<le> second_hi b0 \<and> is_cont b2 \<and> is_cont b3
             then Some ((unat b0 - 0xF0) * 262144 + cont_bits b1 * 4096
                        + cont_bits b2 * 64 + cont_bits b3, r)
             else None
         | _ \<Rightarrow> None)
      else None)"

lemma decode_one_shorter: "decode_one bs = Some (c, r) \<Longrightarrow> length r < length bs"
  by (cases bs) (auto split: if_splits list.splits)

function utf8_decode :: "byte list \<Rightarrow> exn + unicode" where
  "utf8_decode bs =
     (if bs = [] then Inr []
      else case decode_one bs of
             None \<Rightarrow> Inl UnicodeDecodeError
           | Some (c, r) \<Rightarrow>
               (case utf8_decode r of Inl e \<Rightarrow> Inl e | Inr cs \<Rightarrow> Inr (c # cs)))"
  by pat_completeness auto
termination
  by (relation "measure length") (auto dest: decode_one_shorter)

declare utf8_decode.simps [simp del]

subsection \<open>\<^verbatim>\<open>struct.unpack('L', ...)\<close> and \<^verbatim>\<open>str.format\<close>\<close>

text \<open>
  On Windows the native \<^verbatim>\<open>unsigned long\<close> is four bytes, least significant byte
  first; \<^verbatim>\<open>struct.unpack\<close> raises \<^verbatim>\<open>struct.error\<close> on any other length.
\<close>

definition unpack_L :: "byte list \<Rightarrow> exn + nat" where
  "unpack_L bs =
     (case bs of
        [b0, b1, b2, b3] \<Rightarrow>
          Inr (unat b0 + 256 * unat b1 + 65536 * unat b2 + 16777216 * unat b3)
      | _ \<Rightarrow> Inl StructError)"

text \<open>The decimal digits of a number, as \<^verbatim>\<open>{p}\<close> prints an \<^verbatim>\<open>int\<close>; 48 is the digit 0.\<close>

fun decimal :: "nat \<Rightarrow> unicode" where
  "decimal n =
     (if n < 10 then [48 + n]
      else decimal (n div 10) @ [48 + n mod 10])"

declare decimal.simps [simp del]

text \<open>\<^verbatim>\<open>'Process {p}: {s}\n'.format(p=process_id, s=string)\<close>\<close>

definition format_line :: "nat \<Rightarrow> unicode \<Rightarrow> unicode" where
  "format_line p s = of_ascii ''Process '' @ decimal p @ of_ascii '': '' @ s @ [10]"

subsection \<open>The operating system\<close>

datatype event = BufferReady | DataReady | StopEvent

datatype resource = LogFile string | EventObj event | Channel

text \<open>The calls made by the controlling thread, in the order they are made.\<close>

datatype call =
    Call_open string
  | Call_CreateEvent "string option"
  | Call_mmap string nat
  | Call_Thread_start
  | Call_SetEvent event
  | Call_join
  | Call_mmap_close
  | Call_file_close

text \<open>
  \<open>files\<close> holds, for each file, the text handed to \<^verbatim>\<open>write\<close> so far (the bytes the
  text file makes of it, and when it flushes them, are below this model); \<open>encodable\<close>
  says which code points the platform's default encoding (the one
  \<^verbatim>\<open>open(name, 'w')\<close> picks) can represent; \<open>denied\<close> are the objects the system
  refuses to open or create; \<open>held\<close> are the objects this process has opened and not
  yet released; \<open>signaled\<close> is the state of the three auto-reset events; \<open>channel\<close>
  is the content of the shared memory named \<^verbatim>\<open>DBWIN_BUFFER\<close>, 4096 bytes on a real
  host.
\<close>

record world =
  files :: "string \<Rightarrow> unicode option"
  encodable :: "nat \<Rightarrow> bool"
  denied :: "resource set"
  held :: "resource set"
  signaled :: "event \<Rightarrow> bool"
  channel :: "byte list"
  calls :: "call list"

definition called :: "call \<Rightarrow> world \<Rightarrow> world" where
  "called c w = w\<lparr>calls := calls w @ [c]\<rparr>"

text \<open>\<^verbatim>\<open>open(log_file_name, 'w')\<close>: creates the file or truncates it.\<close>

record file_obj =
  name :: string
  closed :: bool

definition open_w :: "string \<Rightarrow> world \<Rightarrow> (exn + file_obj) \<times> world" where
  "open_w path w =
     (let w1 = called (Call_open path) w in
      if LogFile path \<in> denied w1 then (Inl OSError, w1)
      else (Inr \<lparr>name = path, closed = False\<rparr>,
            w1\<lparr>files := (files w1)(path \<mapsto> []), held := insert (LogFile path) (held w1)\<rparr>))"

text \<open>
  \<^verbatim>\<open>win32event.CreateEvent(None, 0, 0, name)\<close>: an auto-reset event. With a name the
  call opens the event of that name, whose state it leaves as it is, or creates it;
  without a name it creates a private event, not signaled.
\<close>

definition event_named :: "string option \<Rightarrow> event option" where
  "event_named n =
     (if n = Some ''DBWIN_BUFFER_READY'' then Some BufferReady
      else if n = Some ''DBWIN_DATA_READY'' then Some DataReady
      else if n = None then Some StopEvent
      else None)"

definition CreateEvent :: "string option \<Rightarrow> world \<Rightarrow> (exn + event) \<times> world" where
  "CreateEvent n w =
     (let w1 = called (Call_CreateEvent n) w in
      case event_named n of
        None \<Rightarrow> (Inl Win32Error, w1)
      | Some ev \<Rightarrow>
          if EventObj ev \<in> denied w1 then (Inl Win32Error, w1)
          else (Inr ev,
                w1\<lparr>held := insert (EventObj ev) (held w1),
                   signaled := (if n = None then (signaled w1)(ev := False) else signaled w1)\<rparr>))"

text \<open>\<^verbatim>\<open>mmap.mmap(0, length, "DBWIN_BUFFER", mmap.ACCESS_WRITE)\<close>\<close>

definition mmap_open :: "string \<Rightarrow> nat \<Rightarrow> world \<Rightarrow> (exn + unit) \<times> world" where
  "mmap_open tag len w =
     (let w1 = called (Call_mmap tag len) w in
      if Channel \<in> denied w1 then (Inl OSError, w1)
      else (Inr (), w1\<lparr>held := insert Channel (held w1)\<rparr>))"

definition SetEvent :: "event \<Rightarrow> world \<Rightarrow> world" where
  "SetEvent ev w = w\<lparr>signaled := (signaled w)(ev := True)\<rparr>"

text \<open>
  \<^verbatim>\<open>win32event.WaitForMultipleObjects(events, 0, win32event.INFINITE)\<close>: the wait
  is over as soon as one of the events is signaled; the result is the least index of a
  signaled event (\<^verbatim>\<open>WAIT_OBJECT_0\<close> is 0), and that event, being auto-reset, is
  reset. \<open>None\<close>: no event is signaled, the caller stays blocked.
\<close>

fun first_signaled :: "(event \<Rightarrow> bool) \<Rightarrow> event list \<Rightarrow> nat option" where
  "first_signaled sg [] = None"
| "first_signaled sg (e # es) =
     (if sg e then Some 0 else map_option Suc (first_signaled sg es))"

definition WaitForMultipleObjects :: "event list \<Rightarrow> world \<Rightarrow> (nat \<times> world) option" where
  "WaitForMultipleObjects evs w =
     (case first_signaled (signaled w) evs of
        None \<Rightarrow> None
      | Some i \<Rightarrow> Some (i, w\<lparr>signaled := (signaled w)(evs ! i := False)\<rparr>))"

text \<open>
  \<^verbatim>\<open>file.write(s)\<close> on a text file: \<^verbatim>\<open>ValueError\<close> once the file is closed,
  \<^verbatim>\<open>UnicodeEncodeError\<close> when the file's encoding has no form for a character of
  \<open>s\<close>; otherwise \<open>s\<close> is added at the end.
\<close>

definition file_write :: "file_obj \<Rightarrow> unicode \<Rightarrow> world \<Rightarrow> exn option \<times> world" where
  "file_write f s w =
     (if closed f then (Some ValueError, w)
      else if \<not> list_all (encodable w) s then (Some UnicodeEncodeError, w)
      else (None,
            w\<lparr>files := (files w)(name f \<mapsto>
                 (case files w (name f) of None \<Rightarrow> s | Some old \<Rightarrow> old @ s))\<rparr>))"

subsection \<open>\<^verbatim>\<open>LogDbgViewReal\<close>: the attributes and the background thread\<close>

datatype pc = AtTop | InWait

datatype thread_state = NotStarted | Running pc | Exited | Died exn

text \<open>
  The attributes of a \<^verbatim>\<open>LogDbgViewReal\<close> object. Its three event handles
  (\<^verbatim>\<open>buffer_ready\<close>, \<^verbatim>\<open>data_ready\<close>, \<^verbatim>\<open>stop\<close>) are the events \<open>BufferReady\<close>,
  \<open>DataReady\<close> and \<open>StopEvent\<close> of the world, set once by the constructor;
  \<open>buffer_closed\<close> is the state of the mmap object \<^verbatim>\<open>self.buffer\<close>; \<open>thread\<close> is the
  state of the \<^verbatim>\<open>threading.Thread\<close> the object itself is.
\<close>

record capture =
  log_file :: file_obj
  buffer_length :: nat
  buffer_closed :: bool
  thread :: thread_state

text \<open>
  \<^verbatim>\<open>mmap.read(n)\<close> from the current position, \<open>bs\<close> being what is left of the
  mapping from there: at most \<open>n\<close> bytes, and all of them when \<open>n\<close> is negative.
\<close>

definition mmap_read :: "int \<Rightarrow> byte list \<Rightarrow> byte list" where
  "mmap_read n bs = (if n < 0 then bs else take (nat n) bs)"

text \<open>
  The body of the \<^verbatim>\<open>data_ready\<close> branch of \<^verbatim>\<open>run\<close>: read the process id and the
  rest of the buffer, cut the rest at the first NUL, decode it, write the line.
  \<^verbatim>\<open>seek\<close> raises \<^verbatim>\<open>ValueError\<close> on a closed mmap.
\<close>

definition handle_message :: "capture \<Rightarrow> world \<Rightarrow> exn option \<times> world" where
  "handle_message self w =
     (let process_id_length = 4;
          remaining_length = int (buffer_length self) - process_id_length
      in
      if buffer_closed self then (Some ValueError, w)
      else
        case unpack_L (mmap_read process_id_length (channel w)) of
          Inl e \<Rightarrow> (Some e, w)
        | Inr process_id \<Rightarrow>
            (let data = mmap_read remaining_length (drop (nat process_id_length) (channel w)) in
             case (if 0 \<in> set data then utf8_decode (takeWhile (\<lambda>b. b \<noteq> 0) data)
                   else utf8_decode data) of
               Inl e \<Rightarrow> (Some e, w)
             | Inr string \<Rightarrow> file_write (log_file self) (format_line process_id string) w))"

lemma file_write_signaled: "signaled (snd (file_write f s w)) = signaled w"
  by (simp add: file_write_def)

lemma handle_message_signaled: "signaled (snd (handle_message self w)) = signaled w"
  by (simp add: handle_message_def Let_def file_write_signaled split: sum.splits)

definition pending :: "world \<Rightarrow> nat" where
  "pending w = (if signaled w DataReady then 1 else 0) + (if signaled w StopEvent then 1 else 0)"

lemma wait_pending:
  "WaitForMultipleObjects [DataReady, StopEvent] w = Some (i, w1) \<Longrightarrow> pending w1 < pending w"
  by (auto simp: WaitForMultipleObjects_def pending_def split: if_splits)

text \<open>
  The loop of \<^verbatim>\<open>run\<close>, from the program point \<open>pc\<close> on, as far as the thread gets
  without anything else happening: it ends (\<open>Exited\<close> by \<^verbatim>\<open>break\<close>, \<open>Died\<close> by an
  exception that leaves \<^verbatim>\<open>run\<close>) or stays blocked in the wait (\<open>Running InWait\<close>).
\<close>

function run :: "capture \<Rightarrow> pc \<Rightarrow> world \<Rightarrow> thread_state \<times> world" where
  "run self AtTop w = run self InWait (SetEvent BufferReady w)"
| "run self InWait w =
     (case WaitForMultipleObjects [DataReady, StopEvent] w of
        None \<Rightarrow> (Running InWait, w)
      | Some (result, w1) \<Rightarrow>
          if result = 0 then
            (case handle_message self w1 of
               (Some e, w2) \<Rightarrow> (Died e, w2)
             | (None, w2) \<Rightarrow> run self AtTop w2)
          else if result = 1 then (Exited, w1)
          else run self AtTop w1)"
  by pat_completeness auto
termination
proof (relation "measure (\<lambda>(self, p, w). 2 * pending w + (if p = AtTop then 1 else 0))")
  show "wf (measure (\<lambda>(self, p, w). 2 * pending w + (if p = AtTop then 1 else 0)))"
    by simp
next
  fix self :: capture and w :: world
  show "((self, InWait, SetEvent BufferReady w), (self, AtTop, w))
        \<in> measure (\<lambda>(self, p, w). 2 * pending w + (if p = AtTop then 1 else 0))"
    by (simp add: SetEvent_def pending_def)
next
  fix self :: capture and w y ya :: world and x2 :: "nat \<times> world" and x :: nat
    and xa :: "exn option"
  assume a: "WaitForMultipleObjects [DataReady, StopEvent] w = Some x2" "(x, y) = x2"
    and b: "(xa, ya) = handle_message self y"
  from a have "pending y < pending w"
    using wait_pending [of w x y] by simp
  moreover from b have "signaled ya = signaled y"
    using handle_message_signaled [of self y] by (metis snd_conv)
  then have "pending ya = pending y"
    by (simp add: pending_def)
  ultimately show "((self, AtTop, ya), (self, InWait, w))
        \<in> measure (\<lambda>(self, p, w). 2 * pending w + (if p = AtTop then 1 else 0))"
    by simp
next
  fix self :: capture and w y :: world and x2 :: "nat \<times> world" and x :: nat
  assume a: "WaitForMultipleObjects [DataReady, StopEvent] w = Some x2" "(x, y) = x2"
  from a have "pending y < pending w"
    using wait_pending [of w x y] by simp
  then show "((self, AtTop, y), (self, InWait, w))
        \<in> measure (\<lambda>(self, p, w). 2 * pending w + (if p = AtTop then 1 else 0))"
    by simp
qed

declare run.simps [simp del]

subsection \<open>The two classes and their methods\<close>

text \<open>
  An object of class \<^verbatim>\<open>LogDbgView\<close> has no attributes; an object of class
  \<^verbatim>\<open>LogDbgViewReal\<close> has those of \<open>capture\<close>.
\<close>

datatype session = LogDbgView | LogDbgViewReal capture

text \<open>\<^verbatim>\<open>LogDbgView.__init__\<close>: \<^verbatim>\<open>pass\<close>.\<close>

definition LogDbgView_init :: "string \<Rightarrow> world \<Rightarrow> (exn + session) \<times> world" where
  "LogDbgView_init log_file_name w = (Inr LogDbgView, w)"

text \<open>
  \<^verbatim>\<open>LogDbgViewReal.__init__\<close>: five acquisitions in a row; the first that raises
  ends the constructor, and nothing in it releases what the earlier ones acquired.
\<close>

definition LogDbgViewReal_init :: "string \<Rightarrow> world \<Rightarrow> (exn + session) \<times> world" where
  "LogDbgViewReal_init log_file_name w =
     (case open_w log_file_name w of
        (Inl e, w1) \<Rightarrow> (Inl e, w1)
      | (Inr f, w1) \<Rightarrow>
     (case CreateEvent (Some ''DBWIN_BUFFER_READY'') w1 of
        (Inl e, w2) \<Rightarrow> (Inl e, w2)
      | (Inr br, w2) \<Rightarrow>
     (case CreateEvent (Some ''DBWIN_DATA_READY'') w2 of
        (Inl e, w3) \<Rightarrow> (Inl e, w3)
      | (Inr dr, w3) \<Rightarrow>
     (case CreateEvent None w3 of
        (Inl e, w4) \<Rightarrow> (Inl e, w4)
      | (Inr st, w4) \<Rightarrow>
     (case mmap_open ''DBWIN_BUFFER'' 4096 w4 of
        (Inl e, w5) \<Rightarrow> (Inl e, w5)
      | (Inr u, w5) \<Rightarrow>
          (Inr (LogDbgViewReal
                 \<lparr>log_file = f, buffer_length = 4096, buffer_closed = False,
                  thread = NotStarted\<rparr>), w5))))))"

text \<open>
  \<^verbatim>\<open>makeLogDbgView\<close>: \<^verbatim>\<open>LogDbgViewReal if log_debug_strings == True else LogDbgView\<close>,
  then the constructor of the class chosen.
\<close>

definition makeLogDbgView :: "bool \<Rightarrow> string \<Rightarrow> world \<Rightarrow> (exn + session) \<times> world" where
  "makeLogDbgView log_debug_strings log_file_name w =
     (if log_debug_strings = True then LogDbgViewReal_init log_file_name w
      else LogDbgView_init log_file_name w)"

text \<open>
  \<^verbatim>\<open>threading.Thread.start\<close>, which \<^verbatim>\<open>LogDbgViewReal\<close> inherits: a thread starts
  once, a second \<^verbatim>\<open>start\<close> raises \<^verbatim>\<open>RuntimeError\<close>. The new thread is at the top
  of the loop of \<^verbatim>\<open>run\<close>.
\<close>

definition Thread_start :: "capture \<Rightarrow> world \<Rightarrow> exn option \<times> capture \<times> world" where
  "Thread_start self w =
     (let w1 = called Call_Thread_start w in
      if thread self = NotStarted then (None, self\<lparr>thread := Running AtTop\<rparr>, w1)
      else (Some RuntimeError, self, w1))"

definition start :: "session \<Rightarrow> world \<Rightarrow> exn option \<times> session \<times> world" where
  "start s w =
     (case s of
        LogDbgView \<Rightarrow> (None, s, w)
      | LogDbgViewReal self \<Rightarrow>
          (case Thread_start self w of (r, self1, w1) \<Rightarrow> (r, LogDbgViewReal self1, w1)))"

text \<open>
  \<^verbatim>\<open>threading.Thread.join\<close>: \<^verbatim>\<open>RuntimeError\<close> for a thread never started;
  otherwise the caller waits until the thread has ended, the thread running as \<open>run\<close>
  says, with no further message arriving meanwhile. \<open>None\<close>: the thread stays blocked
  and \<^verbatim>\<open>join\<close> does not return.
\<close>

definition Thread_join :: "capture \<Rightarrow> world \<Rightarrow> (exn option \<times> capture \<times> world) option" where
  "Thread_join self w =
     (let w1 = called Call_join w in
      case thread self of
        NotStarted \<Rightarrow> Some (Some RuntimeError, self, w1)
      | Running p \<Rightarrow>
          (case run self p w1 of
             (ts, w2) \<Rightarrow>
               (case ts of
                  Running q \<Rightarrow> None
                | _ \<Rightarrow> Some (None, self\<lparr>thread := ts\<rparr>, w2)))
      | _ \<Rightarrow> Some (None, self, w1))"

text \<open>\<^verbatim>\<open>mmap.close\<close> and \<^verbatim>\<open>file.close\<close>; both may be called again on a closed object.\<close>

definition mmap_close :: "capture \<Rightarrow> world \<Rightarrow> capture \<times> world" where
  "mmap_close self w =
     (let w1 = called Call_mmap_close w in
      (self\<lparr>buffer_closed := True\<rparr>, w1\<lparr>held := held w1 - {Channel}\<rparr>))"

definition file_close :: "capture \<Rightarrow> world \<Rightarrow> capture \<times> world" where
  "file_close self w =
     (let w1 = called Call_file_close w in
      (self\<lparr>log_file := (log_file self)\<lparr>closed := True\<rparr>\<rparr>,
       w1\<lparr>held := held w1 - {LogFile (name (log_file self))}\<rparr>))"

text \<open>
  \<^verbatim>\<open>LogDbgViewReal.close\<close>: \<^verbatim>\<open>SetEvent(self.stop)\<close>, \<^verbatim>\<open>self.join()\<close>,
  \<^verbatim>\<open>self.buffer.close()\<close>, \<^verbatim>\<open>self.log_file.close()\<close>.
\<close>

definition LogDbgViewReal_close ::
  "capture \<Rightarrow> world \<Rightarrow> (exn option \<times> capture \<times> world) option" where
  "LogDbgViewReal_close self w =
     (let w1 = SetEvent StopEvent (called (Call_SetEvent StopEvent) w) in
      case Thread_join self w1 of
        None \<Rightarrow> None
      | Some (Some e, self1, w2) \<Rightarrow> Some (Some e, self1, w2)
      | Some (None, self1, w2) \<Rightarrow>
          (case mmap_close self1 w2 of
             (self2, w3) \<Rightarrow>
               (case file_close self2 w3 of
                  (self3, w4) \<Rightarrow> Some (None, self3, w4))))"

definition close :: "session \<Rightarrow> world \<Rightarrow> (exn option \<times> session \<times> world) option" where
  "close s w =
     (case s of
        LogDbgView \<Rightarrow> Some (None, s, w)
      | LogDbgViewReal self \<Rightarrow>
          (case LogDbgViewReal_close self w of
             None \<Rightarrow> None
           | Some (r, self1, w1) \<Rightarrow> Some (r, LogDbgViewReal self1, w1)))"

text \<open>
  \<^verbatim>\<open>__enter__\<close> calls \<^verbatim>\<open>self.start()\<close> and has no \<^verbatim>\<open>return\<close>: its value is
  \<^verbatim>\<open>None\<close>. \<^verbatim>\<open>__exit__\<close> calls \<^verbatim>\<open>self.close()\<close> and returns \<^verbatim>\<open>None\<close> as well.
  \<open>PySelf\<close> stands for a reference to the session object.
\<close>

datatype pyvalue = PyNone | PySelf

definition enter :: "session \<Rightarrow> world \<Rightarrow> (exn + pyvalue) \<times> session \<times> world" where
  "enter s w =
     (case start s w of
        (Some e, s1, w1) \<Rightarrow> (Inl e, s1, w1)
      | (None, s1, w1) \<Rightarrow> (Inr PyNone, s1, w1))"

definition exit :: "session \<Rightarrow> world \<Rightarrow> ((exn + pyvalue) \<times> session \<times> world) option" where
  "exit s w =
     (case close s w of
        None \<Rightarrow> None
      | Some (Some e, s1, w1) \<Rightarrow> Some (Inl e, s1, w1)
      | Some (None, s1, w1) \<Rightarrow> Some (Inr PyNone, s1, w1))"

subsection \<open>The processes that send messages\<close>

text \<open>
  The background thread runs beside the controlling thread. \<open>advance\<close> lets it run
  as far as it gets by itself: to the end of \<^verbatim>\<open>run\<close> or to a wait in which no event
  is signaled.
\<close>

definition advance :: "session \<Rightarrow> world \<Rightarrow> session \<times> world" where
  "advance s w =
     (case s of
        LogDbgView \<Rightarrow> (s, w)
      | LogDbgViewReal self \<Rightarrow>
          (case thread self of
             Running p \<Rightarrow>
               (case run self p w of (ts, w1) \<Rightarrow> (LogDbgViewReal (self\<lparr>thread := ts\<rparr>), w1))
           | _ \<Rightarrow> (s, w)))"

text \<open>
  What happens around the session while it is in use. \<open>Yield\<close>: the background thread
  gets to run. \<open>Produce snap\<close>: a process calls \<^verbatim>\<open>OutputDebugString\<close>; it waits for
  buffer-ready, so the listener runs first; when buffer-ready is signaled the sender
  takes it, fills the buffer with \<open>snap\<close> and signals data-ready; when it is not, no
  listener is armed and the message is dropped.
\<close>

datatype env_step = Yield | Produce "byte list"

definition env_apply :: "env_step \<Rightarrow> session \<Rightarrow> world \<Rightarrow> session \<times> world" where
  "env_apply st s w =
     (case st of
        Yield \<Rightarrow> advance s w
      | Produce snap \<Rightarrow>
          (case advance s w of
             (s1, w1) \<Rightarrow>
               if signaled w1 BufferReady
               then (s1, w1\<lparr>signaled := (signaled w1)(BufferReady := False, DataReady := True),
                            channel := snap\<rparr>)
               else (s1, w1)))"

fun deliver :: "env_step list \<Rightarrow> session \<Rightarrow> world \<Rightarrow> session \<times> world" where
  "deliver [] s w = (s, w)"
| "deliver (st # sts) s w = (case env_apply st s w of (s1, w1) \<Rightarrow> deliver sts s1 w1)"

subsection \<open>The two ways to use a session\<close>

text \<open>
  A method call on the name a \<^verbatim>\<open>with\<close> statement binds: \<^verbatim>\<open>None\<close> has none of the
  session's methods, so the call raises \<^verbatim>\<open>AttributeError\<close>; on the session itself
  the call goes to the method.
\<close>

datatype member = M_start | M_close | M_enter | M_exit

definition call_method ::
  "pyvalue \<Rightarrow> member \<Rightarrow> session \<Rightarrow> world \<Rightarrow> (exn option \<times> session \<times> world) option" where
  "call_method x m s w =
     (case x of
        PyNone \<Rightarrow> Some (Some AttributeError, s, w)
      | PySelf \<Rightarrow>
          (case m of
             M_start \<Rightarrow> Some (start s w)
           | M_close \<Rightarrow> close s w
           | M_enter \<Rightarrow>
               (case enter s w of
                  (Inl e, s1, w1) \<Rightarrow> Some (Some e, s1, w1)
                | (Inr v, s1, w1) \<Rightarrow> Some (None, s1, w1))
           | M_exit \<Rightarrow>
               (case exit s w of
                  None \<Rightarrow> None
                | Some (Inl e, s1, w1) \<Rightarrow> Some (Some e, s1, w1)
                | Some (Inr v, s1, w1) \<Rightarrow> Some (None, s1, w1))))"

text \<open>
  The statements of a body: something happens around the session, or the body calls a
  method on the bound name. An exception ends the body.
\<close>

datatype stmt = Env env_step | CallBound member

fun exec_body ::
  "pyvalue \<Rightarrow> stmt list \<Rightarrow> session \<Rightarrow> world \<Rightarrow> (exn option \<times> session \<times> world) option" where
  "exec_body x [] s w = Some (None, s, w)"
| "exec_body x (Env st # rest) s w =
     (case env_apply st s w of (s1, w1) \<Rightarrow> exec_body x rest s1 w1)"
| "exec_body x (CallBound m # rest) s w =
     (case call_method x m s w of
        None \<Rightarrow> None
      | Some (Some e, s1, w1) \<Rightarrow> Some (Some e, s1, w1)
      | Some (None, s1, w1) \<Rightarrow> exec_body x rest s1 w1)"

definition truthy :: "pyvalue \<Rightarrow> bool" where
  "truthy v = (case v of PyNone \<Rightarrow> False | PySelf \<Rightarrow> True)"

text \<open>
  \<^verbatim>\<open>with s as x: body\<close>, as Python runs it: \<^verbatim>\<open>x = s.__enter__()\<close>; if that raises,
  neither the body nor \<^verbatim>\<open>__exit__\<close> runs; otherwise the body runs and, however it
  ends, \<^verbatim>\<open>s.__exit__(...)\<close> runs; an exception of the body goes on to the caller unless
  \<^verbatim>\<open>__exit__\<close> returns a true value.
\<close>

definition with_stmt ::
  "session \<Rightarrow> stmt list \<Rightarrow> world \<Rightarrow> (exn option \<times> session \<times> world) option" where
  "with_stmt s body w =
     (case enter s w of
        (Inl e, s1, w1) \<Rightarrow> Some (Some e, s1, w1)
      | (Inr x, s1, w1) \<Rightarrow>
          (case exec_body x body s1 w1 of
             None \<Rightarrow> None
           | Some (r, s2, w2) \<Rightarrow>
               (case exit s2 w2 of
                  None \<Rightarrow> None
                | Some (Inl e, s3, w3) \<Rightarrow> Some (Some e, s3, w3)
                | Some (Inr v, s3, w3) \<Rightarrow>
                    Some (if truthy v then None else r, s3, w3))))"

text \<open>
  The explicit form, as \<^verbatim>\<open>LogDbgView.test\<close> has it: \<^verbatim>\<open>s.start()\<close>, the messages,
  \<^verbatim>\<open>s.close()\<close>.
\<close>

definition explicit_use ::
  "session \<Rightarrow> env_step list \<Rightarrow> world \<Rightarrow> (exn option \<times> session \<times> world) option" where
  "explicit_use s sts w =
     (case start s w of
        (Some e, s1, w1) \<Rightarrow> Some (Some e, s1, w1)
      | (None, s1, w1) \<Rightarrow>
          (case deliver sts s1 w1 of (s2, w2) \<Rightarrow> close s2 w2))"

text \<open>A host on which nothing has happened yet, for the examples.\<close>

definition quiet_host :: world where
  "quiet_host =
     \<lparr>files = Map.empty, encodable = (\<lambda>c. True), denied = {}, held = {},
      signaled = (\<lambda>ev. False), channel = replicate 4096 0, calls = []\<rparr>"

text \<open>The attributes \<^verbatim>\<open>LogDbgViewReal.__init__\<close> gives a new object.\<close>

definition fresh_capture :: "string \<Rightarrow> capture" where
  "fresh_capture path =
     \<lparr>log_file = \<lparr>name = path, closed = False\<rparr>, buffer_length = 4096,
      buffer_closed = False, thread = NotStarted\<rparr>"

text \<open>
  The bytes \<^verbatim>\<open>run\<close> hands to the decoder: the buffer after the process id, up to
  the first NUL, or all of it when it has none.
\<close>

definition payload :: "capture \<Rightarrow> world \<Rightarrow> byte list" where
  "payload self w =
     takeWhile (\<lambda>b. b \<noteq> 0) (mmap_read (int (buffer_length self) - 4) (drop 4 (channel w)))"

text \<open>The world after \<open>line\<close> has been added to the log file of \<open>self\<close>.\<close>

definition logged :: "capture \<Rightarrow> unicode \<Rightarrow> world \<Rightarrow> world" where
  "logged self line w =
     w\<lparr>files := (files w)(name (log_file self) \<mapsto>
          (case files w (name (log_file self)) of None \<Rightarrow> line | Some old \<Rightarrow> old @ line))\<rparr>"

text \<open>
  What a sender leaves in the buffer: its process id in four bytes, least significant
  first, the bytes of its string, and zeros up to the 4096 bytes.
\<close>

definition snapshot :: "nat \<Rightarrow> byte list \<Rightarrow> byte list" where
  "snapshot p bs =
     [of_nat p, of_nat (p div 256), of_nat (p div 65536), of_nat (p div 16777216)]
     @ bs @ replicate (4092 - length bs) 0"

text \<open>A session whose \<^verbatim>\<open>start()\<close> has returned: \<^verbatim>\<open>join\<close> accepts its thread.\<close>

definition was_started :: "session \<Rightarrow> bool" where
  "was_started s = (case s of LogDbgView \<Rightarrow> True | LogDbgViewReal self \<Rightarrow> thread self \<noteq> NotStarted)"

text \<open>What \<^verbatim>\<open>LogDbgViewReal.__init__\<close> acquires, in the order of its statements.\<close>

definition acquisitions :: "string \<Rightarrow> resource list" where
  "acquisitions path =
     [LogFile path, EventObj BufferReady, EventObj DataReady, EventObj StopEvent, Channel]"

section \<open>Properties\<close>

lemmas eval_defs = makeLogDbgView_def LogDbgViewReal_init_def LogDbgView_init_def open_w_def
  CreateEvent_def event_named_def mmap_open_def called_def quiet_host_def start_def
  Thread_start_def close_def LogDbgViewReal_close_def Thread_join_def SetEvent_def run.simps
  WaitForMultipleObjects_def mmap_close_def file_close_def Let_def fresh_capture_def

subsection \<open>The wait and the loop\<close>

lemma wait_data:
  "signaled w DataReady \<Longrightarrow>
   WaitForMultipleObjects [DataReady, StopEvent] w
     = Some (0, w\<lparr>signaled := (signaled w)(DataReady := False)\<rparr>)"
  by (simp add: WaitForMultipleObjects_def)

lemma wait_stop:
  "\<not> signaled w DataReady \<Longrightarrow> signaled w StopEvent \<Longrightarrow>
   WaitForMultipleObjects [DataReady, StopEvent] w
     = Some (1, w\<lparr>signaled := (signaled w)(StopEvent := False)\<rparr>)"
  by (simp add: WaitForMultipleObjects_def)

lemma wait_none:
  "\<not> signaled w DataReady \<Longrightarrow> \<not> signaled w StopEvent \<Longrightarrow>
   WaitForMultipleObjects [DataReady, StopEvent] w = None"
  by (simp add: WaitForMultipleObjects_def)

text \<open>With the stop event signaled the thread does not stay blocked: it ends.\<close>

lemma run_stop_ends:
  "signaled w StopEvent \<Longrightarrow> fst (run self p w) = Exited \<or> (\<exists>e. fst (run self p w) = Died e)"
proof (induction self p w rule: run.induct)
  case (1 self w)
  then show ?case by (simp add: run.simps SetEvent_def)
next
  case (2 self w)
  show ?case
  proof (cases "signaled w DataReady")
    case True
    let ?w1 = "w\<lparr>signaled := (signaled w)(DataReady := False)\<rparr>"
    obtain r w2 where hm: "handle_message self ?w1 = (r, w2)"
      by (cases "handle_message self ?w1")
    have sg: "signaled w2 = signaled ?w1"
      using handle_message_signaled [of self ?w1] hm by simp
    show ?thesis
    proof (cases r)
      case None
      have "fst (run self AtTop w2) = Exited \<or> (\<exists>e. fst (run self AtTop w2) = Died e)"
        using "2.IH"(1) [OF wait_data [OF True] refl refl hm [symmetric] None] sg "2.prems"
        by simp
      then show ?thesis
        using True hm None by (simp add: run.simps(2) [of self w] wait_data)
    next
      case (Some e)
      then show ?thesis
        using True hm by (simp add: run.simps(2) [of self w] wait_data)
    qed
  next
    case False
    then show ?thesis
      using "2.prems" by (simp add: run.simps(2) [of self w] wait_stop)
  qed
qed

text \<open>The thread touches the files and the events, nothing else.\<close>

lemma file_write_frame:
  "calls (snd (file_write f s w)) = calls w \<and> held (snd (file_write f s w)) = held w
   \<and> denied (snd (file_write f s w)) = denied w \<and> encodable (snd (file_write f s w)) = encodable w
   \<and> channel (snd (file_write f s w)) = channel w"
  by (simp add: file_write_def)

lemma handle_message_frame:
  "calls (snd (handle_message self w)) = calls w \<and> held (snd (handle_message self w)) = held w
   \<and> denied (snd (handle_message self w)) = denied w
   \<and> encodable (snd (handle_message self w)) = encodable w
   \<and> channel (snd (handle_message self w)) = channel w"
  by (simp add: handle_message_def Let_def file_write_frame split: sum.splits)

lemma run_frame:
  "calls (snd (run self p w)) = calls w \<and> held (snd (run self p w)) = held w
   \<and> denied (snd (run self p w)) = denied w \<and> encodable (snd (run self p w)) = encodable w
   \<and> channel (snd (run self p w)) = channel w"
proof (induction self p w rule: run.induct)
  case (1 self w)
  then show ?case by (simp add: run.simps SetEvent_def)
next
  case (2 self w)
  show ?case
  proof (cases "WaitForMultipleObjects [DataReady, StopEvent] w")
    case None
    then show ?thesis by (simp add: run.simps(2) [of self w])
  next
    case (Some a)
    obtain i w1 where a: "a = (i, w1)" by (cases a)
    have fr: "calls w1 = calls w \<and> held w1 = held w \<and> denied w1 = denied w
              \<and> encodable w1 = encodable w \<and> channel w1 = channel w"
      using Some a by (auto simp: WaitForMultipleObjects_def split: option.splits)
    obtain r w2 where hm: "handle_message self w1 = (r, w2)"
      by (cases "handle_message self w1")
    have fr2: "calls w2 = calls w1 \<and> held w2 = held w1 \<and> denied w2 = denied w1
              \<and> encodable w2 = encodable w1 \<and> channel w2 = channel w1"
      using handle_message_frame [of self w1] hm by simp
    show ?thesis
    proof (cases "i = 0")
      case True
      show ?thesis
      proof (cases r)
        case None
        then show ?thesis
          using "2.IH"(1) [OF Some a [symmetric] True hm [symmetric] None] fr fr2 Some a True hm
          by (simp add: run.simps(2) [of self w])
      next
        case (Some e)
        then show ?thesis
          using fr fr2 \<open>WaitForMultipleObjects [DataReady, StopEvent] w = Some a\<close> a True hm
          by (simp add: run.simps(2) [of self w])
      qed
    next
      case False
      show ?thesis
      proof (cases "i = 1")
        case True
        then show ?thesis
          using fr Some a by (simp add: run.simps(2) [of self w])
      next
        case i1: False
        then show ?thesis
          using "2.IH"(2) [OF Some a [symmetric] False i1] fr Some a False
          by (simp add: run.simps(2) [of self w])
      qed
    qed
  qed
qed


lemma run_result:
  "fst (run self p w) = Running InWait \<or> fst (run self p w) = Exited
   \<or> (\<exists>e. fst (run self p w) = Died e)"
proof (induction self p w rule: run.induct)
  case (1 self w)
  then show ?case by (simp add: run.simps)
next
  case (2 self w)
  show ?case
  proof (cases "WaitForMultipleObjects [DataReady, StopEvent] w")
    case None
    then show ?thesis by (simp add: run.simps(2) [of self w])
  next
    case (Some a)
    obtain i w1 where a: "a = (i, w1)" by (cases a)
    obtain r w2 where hm: "handle_message self w1 = (r, w2)"
      by (cases "handle_message self w1")
    show ?thesis
    proof (cases "i = 0")
      case True
      show ?thesis
      proof (cases r)
        case None
        then show ?thesis
          using "2.IH"(1) [OF Some a [symmetric] True hm [symmetric] None] Some a True hm
          by (simp add: run.simps(2) [of self w])
      next
        case (Some e)
        then show ?thesis
          using \<open>WaitForMultipleObjects [DataReady, StopEvent] w = Some a\<close> a True hm
          by (simp add: run.simps(2) [of self w])
      qed
    next
      case False
      show ?thesis
      proof (cases "i = 1")
        case True
        then show ?thesis
          using Some a by (simp add: run.simps(2) [of self w])
      next
        case i1: False
        then show ?thesis
          using "2.IH"(2) [OF Some a [symmetric] False i1] Some a False
          by (simp add: run.simps(2) [of self w])
      qed
    qed
  qed
qed

lemma join_result:
  assumes "Thread_join self w = Some (None, self1, w1)"
  shows "(thread self1 = Exited \<or> (\<exists>e. thread self1 = Died e))
         \<and> self1 = self\<lparr>thread := thread self1\<rparr>"
proof (cases "thread self")
  case NotStarted
  then show ?thesis using assms by (simp add: Thread_join_def Let_def)
next
  case (Running p)
  obtain ts w2 where r: "run self p (called Call_join w) = (ts, w2)"
    by (cases "run self p (called Call_join w)")
  have "ts = Running InWait \<or> ts = Exited \<or> (\<exists>e. ts = Died e)"
    using run_result [of self p "called Call_join w"] r by simp
  then show ?thesis
    using assms Running r by (auto simp: Thread_join_def Let_def)
next
  case Exited
  then show ?thesis using assms by (auto simp: Thread_join_def Let_def)
next
  case (Died e)
  then show ?thesis using assms by (auto simp: Thread_join_def Let_def)
qed

lemma join_finished:
  "thread self = Exited \<or> (\<exists>e. thread self = Died e) \<Longrightarrow>
   Thread_join self w = Some (None, self, called Call_join w)"
  by (auto simp: Thread_join_def Let_def)

subsection \<open>Closing a session\<close>

lemma join_started:
  assumes "thread self \<noteq> NotStarted" "signaled w StopEvent"
  shows "\<exists>self' w'. Thread_join self w = Some (None, self', w')
           \<and> (thread self' = Exited \<or> (\<exists>e. thread self' = Died e))
           \<and> log_file self' = log_file self \<and> buffer_length self' = buffer_length self
           \<and> buffer_closed self' = buffer_closed self
           \<and> calls w' = calls w @ [Call_join] \<and> held w' = held w"
proof (cases "thread self")
  case NotStarted
  then show ?thesis using assms by simp
next
  case (Running p)
  let ?w1 = "called Call_join w"
  have sg: "signaled ?w1 StopEvent" using assms by (simp add: called_def)
  obtain ts w2 where r: "run self p ?w1 = (ts, w2)" by (cases "run self p ?w1")
  have e: "ts = Exited \<or> (\<exists>e. ts = Died e)"
    using run_stop_ends [OF sg, of self p] r by simp
  have fr: "calls w2 = calls ?w1 \<and> held w2 = held ?w1"
    using run_frame [of self p ?w1] r by simp
  have "Thread_join self w = Some (None, self\<lparr>thread := ts\<rparr>, w2)"
    using Running r e by (auto simp: Thread_join_def Let_def)
  then show ?thesis
    using e fr by (simp add: called_def)
next
  case Exited
  then show ?thesis by (simp add: Thread_join_def Let_def called_def)
next
  case (Died e)
  then show ?thesis by (simp add: Thread_join_def Let_def called_def)
qed

text \<open>
  Claim C3. For every capture session whose thread has been started and every world,
  \<^verbatim>\<open>close\<close> returns, without an exception, having made exactly these calls in this
  order: set the stop event, join the thread, close the shared memory, close the log
  file, each once; on return the thread has ended (by \<^verbatim>\<open>break\<close> or by an exception of
  its own), the buffer and the log file are closed and their handles released.
\<close>

theorem close_teardown_order:
  assumes "thread self \<noteq> NotStarted"
  shows "\<exists>self' w'. close (LogDbgViewReal self) w = Some (None, LogDbgViewReal self', w')
           \<and> calls w' = calls w @ [Call_SetEvent StopEvent, Call_join, Call_mmap_close,
                                    Call_file_close]
           \<and> (thread self' = Exited \<or> (\<exists>e. thread self' = Died e))
           \<and> buffer_closed self' \<and> closed (log_file self')
           \<and> Channel \<notin> held w' \<and> LogFile (name (log_file self)) \<notin> held w'"
proof -
  let ?w1 = "SetEvent StopEvent (called (Call_SetEvent StopEvent) w)"
  have sg: "signaled ?w1 StopEvent" by (simp add: SetEvent_def)
  obtain self1 w2 where j: "Thread_join self ?w1 = Some (None, self1, w2)"
    and ts: "thread self1 = Exited \<or> (\<exists>e. thread self1 = Died e)"
    and lf: "log_file self1 = log_file self"
    and c: "calls w2 = calls ?w1 @ [Call_join]"
    using join_started [OF assms sg] by blast
  have c1: "calls ?w1 = calls w @ [Call_SetEvent StopEvent]"
    by (simp add: SetEvent_def called_def)
  show ?thesis
    using j ts c c1 lf
    by (auto simp: close_def LogDbgViewReal_close_def Let_def mmap_close_def file_close_def
        called_def)
qed


theorem close_teardown_order_witness:
  "thread ((fresh_capture ''L'')\<lparr>thread := Running AtTop\<rparr>) \<noteq> NotStarted
   \<and> (\<exists>self' w'.
         close (LogDbgViewReal ((fresh_capture ''L'')\<lparr>thread := Running AtTop\<rparr>)) quiet_host
           = Some (None, LogDbgViewReal self', w')
         \<and> calls w' = calls quiet_host @ [Call_SetEvent StopEvent, Call_join, Call_mmap_close,
                                          Call_file_close]
         \<and> (thread self' = Exited \<or> (\<exists>e. thread self' = Died e))
         \<and> buffer_closed self' \<and> closed (log_file self')
         \<and> Channel \<notin> held w'
         \<and> LogFile (name (log_file ((fresh_capture ''L'')\<lparr>thread := Running AtTop\<rparr>)))
             \<notin> held w')"
  using close_teardown_order [of "(fresh_capture ''L'')\<lparr>thread := Running AtTop\<rparr>" quiet_host]
  by (simp add: fresh_capture_def)

text \<open>
  Claim C2, as the code has it. When a first \<^verbatim>\<open>close\<close> has returned without an
  exception, a second \<^verbatim>\<open>close\<close> returns without an exception too and leaves the object,
  the files, the open handles and the shared memory as they were; for a capture session
  it is not a no-op: it makes the four calls again, and \<^verbatim>\<open>SetEvent(self.stop)\<close> leaves
  the stop event signaled.
\<close>

theorem second_close:
  assumes "close s w = Some (None, s1, w1)"
  shows "\<exists>w2. close s1 w1 = Some (None, s1, w2)
           \<and> files w2 = files w1 \<and> held w2 = held w1 \<and> channel w2 = channel w1
           \<and> denied w2 = denied w1 \<and> encodable w2 = encodable w1
           \<and> (case s of
                LogDbgView \<Rightarrow> w2 = w1
              | LogDbgViewReal self \<Rightarrow>
                  signaled w2 = (signaled w1)(StopEvent := True)
                  \<and> calls w2 = calls w1 @ [Call_SetEvent StopEvent, Call_join,
                                            Call_mmap_close, Call_file_close])"
proof (cases s)
  case LogDbgView
  then show ?thesis using assms by (simp add: close_def)
next
  case (LogDbgViewReal self)
  let ?w0 = "SetEvent StopEvent (called (Call_SetEvent StopEvent) w)"
  from assms LogDbgViewReal obtain selfj wj where
    j: "Thread_join self ?w0 = Some (None, selfj, wj)"
    and s1: "s1 = LogDbgViewReal (selfj\<lparr>buffer_closed := True,
                 log_file := (log_file selfj)\<lparr>closed := True\<rparr>\<rparr>)"
    and w1: "w1 = (called Call_file_close ((called Call_mmap_close wj)
                    \<lparr>held := held wj - {Channel}\<rparr>))
                    \<lparr>held := held wj - {Channel} - {LogFile (name (log_file selfj))}\<rparr>"
    by (auto simp: close_def LogDbgViewReal_close_def Let_def mmap_close_def file_close_def
        called_def split: option.splits prod.splits)
  let ?self1 = "selfj\<lparr>buffer_closed := True, log_file := (log_file selfj)\<lparr>closed := True\<rparr>\<rparr>"
  have fin: "thread ?self1 = Exited \<or> (\<exists>e. thread ?self1 = Died e)"
    using join_result [OF j] by simp
  let ?w1a = "SetEvent StopEvent (called (Call_SetEvent StopEvent) w1)"
  have j2: "Thread_join ?self1 ?w1a = Some (None, ?self1, called Call_join ?w1a)"
    by (rule join_finished [OF fin])
  show ?thesis
    using s1 w1 j2 LogDbgViewReal
    by (auto simp: close_def LogDbgViewReal_close_def Let_def mmap_close_def file_close_def
        called_def SetEvent_def)
qed

lemma first_close_example:
  "close (LogDbgViewReal ((fresh_capture ''L'')\<lparr>thread := Running AtTop\<rparr>)) quiet_host
   = Some (None,
       LogDbgViewReal ((fresh_capture ''L'')\<lparr>thread := Exited, buffer_closed := True,
          log_file := \<lparr>name = ''L'', closed = True\<rparr>\<rparr>),
       quiet_host\<lparr>signaled := (\<lambda>ev. ev = BufferReady),
          calls := [Call_SetEvent StopEvent, Call_join, Call_mmap_close, Call_file_close]\<rparr>)"
  by (auto simp: eval_defs fun_eq_iff)

theorem second_close_witness:
  "close (LogDbgViewReal ((fresh_capture ''L'')\<lparr>thread := Running AtTop\<rparr>)) quiet_host
   = Some (None,
       LogDbgViewReal ((fresh_capture ''L'')\<lparr>thread := Exited, buffer_closed := True,
          log_file := \<lparr>name = ''L'', closed = True\<rparr>\<rparr>),
       quiet_host\<lparr>signaled := (\<lambda>ev. ev = BufferReady),
          calls := [Call_SetEvent StopEvent, Call_join, Call_mmap_close, Call_file_close]\<rparr>)
   \<and> (\<exists>w2.
        close (LogDbgViewReal ((fresh_capture ''L'')\<lparr>thread := Exited, buffer_closed := True,
                 log_file := \<lparr>name = ''L'', closed = True\<rparr>\<rparr>))
          (quiet_host\<lparr>signaled := (\<lambda>ev. ev = BufferReady),
             calls := [Call_SetEvent StopEvent, Call_join, Call_mmap_close, Call_file_close]\<rparr>)
        = Some (None,
            LogDbgViewReal ((fresh_capture ''L'')\<lparr>thread := Exited, buffer_closed := True,
              log_file := \<lparr>name = ''L'', closed = True\<rparr>\<rparr>), w2)
        \<and> files w2 = files quiet_host \<and> held w2 = held quiet_host
        \<and> signaled w2 = (\<lambda>ev. ev = BufferReady)(StopEvent := True)
        \<and> calls w2 = [Call_SetEvent StopEvent, Call_join, Call_mmap_close, Call_file_close,
                        Call_SetEvent StopEvent, Call_join, Call_mmap_close, Call_file_close])"
  using first_close_example second_close [OF first_close_example]
  by auto

text \<open>
  The claim as the specification states it fails: build a capture session on a quiet
  host, start it, close it, close it again. The first \<^verbatim>\<open>close\<close> leaves the stop event
  reset (the thread took it); after the second the stop event is signaled.
\<close>

theorem second_close_counterexample:
  "(case makeLogDbgView True ''L'' quiet_host of
      (Inr s, w) \<Rightarrow>
        (case start s w of
           (r0, s0, w0) \<Rightarrow>
             (case close s0 w0 of
                Some (r1, s1, w1) \<Rightarrow>
                  (case close s1 w1 of
                     Some (r2, s2, w2) \<Rightarrow>
                       r0 = None \<and> r1 = None \<and> r2 = None
                       \<and> \<not> signaled w1 StopEvent \<and> signaled w2 StopEvent
                       \<and> calls w2 = calls w1 @ [Call_SetEvent StopEvent, Call_join,
                                                 Call_mmap_close, Call_file_close]))))"
  by (simp add: eval_defs)

subsection \<open>Building a capture session\<close>

text \<open>
  Claim C5, as the code has it. For every log path and every world in which none of the
  five objects is refused, it is the construction of the session (the factory with
  capture enabled, so \<^verbatim>\<open>LogDbgViewReal.__init__\<close>) that opens the log file, truncating
  it, creates or opens the two named events and the private stop event, and attaches
  the 4096-byte shared memory; \<^verbatim>\<open>start()\<close> then only starts the thread: it holds
  nothing more and touches no file.
\<close>

theorem constructor_acquires:
  assumes "LogFile path \<notin> denied w" "EventObj BufferReady \<notin> denied w"
    "EventObj DataReady \<notin> denied w" "EventObj StopEvent \<notin> denied w" "Channel \<notin> denied w"
  shows "\<exists>w1. makeLogDbgView True path w = (Inr (LogDbgViewReal (fresh_capture path)), w1)
           \<and> files w1 = (files w)(path \<mapsto> [])
           \<and> held w1 = held w \<union> {LogFile path, EventObj BufferReady, EventObj DataReady,
                                    EventObj StopEvent, Channel}
           \<and> calls w1 = calls w @ [Call_open path,
                                    Call_CreateEvent (Some ''DBWIN_BUFFER_READY''),
                                    Call_CreateEvent (Some ''DBWIN_DATA_READY''),
                                    Call_CreateEvent None, Call_mmap ''DBWIN_BUFFER'' 4096]
           \<and> start (LogDbgViewReal (fresh_capture path)) w1
               = (None, LogDbgViewReal ((fresh_capture path)\<lparr>thread := Running AtTop\<rparr>),
                  w1\<lparr>calls := calls w1 @ [Call_Thread_start]\<rparr>)"
  using assms
  by (auto simp: makeLogDbgView_def LogDbgViewReal_init_def open_w_def CreateEvent_def
      event_named_def mmap_open_def called_def start_def Thread_start_def Let_def
      fresh_capture_def)

theorem constructor_acquires_witness:
  "LogFile ''L'' \<notin> denied quiet_host \<and> EventObj BufferReady \<notin> denied quiet_host
   \<and> EventObj DataReady \<notin> denied quiet_host \<and> EventObj StopEvent \<notin> denied quiet_host
   \<and> Channel \<notin> denied quiet_host
   \<and> (\<exists>w1. makeLogDbgView True ''L'' quiet_host
              = (Inr (LogDbgViewReal (fresh_capture ''L'')), w1)
           \<and> files w1 = (files quiet_host)(''L'' \<mapsto> [])
           \<and> held w1 = held quiet_host \<union> {LogFile ''L'', EventObj BufferReady,
                 EventObj DataReady, EventObj StopEvent, Channel}
           \<and> calls w1 = calls quiet_host @ [Call_open ''L'',
                                    Call_CreateEvent (Some ''DBWIN_BUFFER_READY''),
                                    Call_CreateEvent (Some ''DBWIN_DATA_READY''),
                                    Call_CreateEvent None, Call_mmap ''DBWIN_BUFFER'' 4096]
           \<and> start (LogDbgViewReal (fresh_capture ''L'')) w1
               = (None, LogDbgViewReal ((fresh_capture ''L'')\<lparr>thread := Running AtTop\<rparr>),
                  w1\<lparr>calls := calls w1 @ [Call_Thread_start]\<rparr>))"
  using constructor_acquires [of "''L''" quiet_host]
  by (simp add: quiet_host_def)

text \<open>
  The claim as the specification states it fails: after the construction alone, with
  \<^verbatim>\<open>start()\<close> never called, all five objects are held and the log file, which had a
  content, is empty.
\<close>

theorem acquired_before_start_counterexample:
  "(case makeLogDbgView True ''L'' (quiet_host\<lparr>files := [''L'' \<mapsto> [111, 108, 100]]\<rparr>) of
      (r, w) \<Rightarrow>
        r = Inr (LogDbgViewReal (fresh_capture ''L''))
        \<and> thread (fresh_capture ''L'') = NotStarted
        \<and> held w = {LogFile ''L'', EventObj BufferReady, EventObj DataReady,
                     EventObj StopEvent, Channel}
        \<and> files w ''L'' = Some []
        \<and> calls w = [Call_open ''L'', Call_CreateEvent (Some ''DBWIN_BUFFER_READY''),
                      Call_CreateEvent (Some ''DBWIN_DATA_READY''), Call_CreateEvent None,
                      Call_mmap ''DBWIN_BUFFER'' 4096])"
  by (auto simp: eval_defs)

text \<open>
  Claim C6, as the code has it. For every log path and every world in which the system
  refuses one of the five objects the constructor acquires, the construction of a
  capture session raises (\<^verbatim>\<open>OSError\<close> or the error of \<^verbatim>\<open>win32event\<close>): the error
  reaches the caller and no session object results. Nothing is released: what the
  constructor acquired before the first object refused is still held when the error
  surfaces, no close call has been made, and the log file, once opened, has been
  truncated.
\<close>

lemma constructor_raises:
  assumes "r \<in> set (acquisitions path)" "r \<in> denied w"
  shows "\<exists>e w1. makeLogDbgView True path w = (Inl e, w1)"
  using assms
  by (auto simp: makeLogDbgView_def LogDbgViewReal_init_def open_w_def CreateEvent_def
      event_named_def mmap_open_def called_def Let_def acquisitions_def)

lemma constructor_leaves:
  assumes "makeLogDbgView True path w = (Inl e, w1)"
  shows "(e = OSError \<or> e = Win32Error)
         \<and> held w1 = held w \<union> set (takeWhile (\<lambda>r. r \<notin> denied w) (acquisitions path))
         \<and> set (calls w1) \<inter> {Call_mmap_close, Call_file_close}
             = set (calls w) \<inter> {Call_mmap_close, Call_file_close}
         \<and> files w1 = (if LogFile path \<in> denied w then files w else (files w)(path \<mapsto> []))"
  using assms
  by (auto simp: makeLogDbgView_def LogDbgViewReal_init_def open_w_def CreateEvent_def
      event_named_def mmap_open_def called_def Let_def acquisitions_def
      split: if_splits)

theorem constructor_failure:
  assumes "r \<in> set (acquisitions path)" "r \<in> denied w"
  shows "\<exists>e w1. makeLogDbgView True path w = (Inl e, w1)
           \<and> (e = OSError \<or> e = Win32Error)
           \<and> held w1 = held w \<union> set (takeWhile (\<lambda>r. r \<notin> denied w) (acquisitions path))
           \<and> set (calls w1) \<inter> {Call_mmap_close, Call_file_close}
               = set (calls w) \<inter> {Call_mmap_close, Call_file_close}
           \<and> files w1
               = (if LogFile path \<in> denied w then files w else (files w)(path \<mapsto> []))"
proof -
  obtain e w1 where r: "makeLogDbgView True path w = (Inl e, w1)"
    using constructor_raises [OF assms] by blast
  show ?thesis
    using r constructor_leaves [OF r] by blast
qed

theorem constructor_failure_witness:
  "Channel \<in> set (acquisitions ''L'')
   \<and> Channel \<in> denied (quiet_host\<lparr>files := [''L'' \<mapsto> [111, 108, 100]], denied := {Channel}\<rparr>)
   \<and> (\<exists>e w1.
         makeLogDbgView True ''L''
           (quiet_host\<lparr>files := [''L'' \<mapsto> [111, 108, 100]], denied := {Channel}\<rparr>)
         = (Inl e, w1)
         \<and> (e = OSError \<or> e = Win32Error)
         \<and> held w1 = {LogFile ''L'', EventObj BufferReady, EventObj DataReady,
                        EventObj StopEvent}
         \<and> set (calls w1) \<inter> {Call_mmap_close, Call_file_close} = {}
         \<and> files w1 = [''L'' \<mapsto> []])"
proof -
  let ?w = "quiet_host\<lparr>files := [''L'' \<mapsto> [111, 108, 100]], denied := {Channel}\<rparr>"
  have a: "Channel \<in> set (acquisitions ''L'')" by (simp add: acquisitions_def)
  have b: "Channel \<in> denied ?w" by simp
  have h: "held ?w \<union> set (takeWhile (\<lambda>r. r \<notin> denied ?w) (acquisitions ''L''))
           = {LogFile ''L'', EventObj BufferReady, EventObj DataReady, EventObj StopEvent}"
    by (auto simp: acquisitions_def quiet_host_def)
  have c: "set (calls ?w) \<inter> {Call_mmap_close, Call_file_close} = {}"
    by (simp add: quiet_host_def)
  have f: "(if LogFile ''L'' \<in> denied ?w then files ?w else (files ?w)(''L'' \<mapsto> []))
           = [''L'' \<mapsto> []]"
    by (simp add: quiet_host_def)
  show ?thesis
    using a b constructor_failure [OF a b] unfolding h c f by blast
qed

text \<open>
  The claim as the specification states it fails: when the shared memory is refused, the
  constructor raises with the log file and the three events still held, the log file
  already truncated, and no close call made.
\<close>

theorem release_on_failure_counterexample:
  "(case makeLogDbgView True ''L''
           (quiet_host\<lparr>files := [''L'' \<mapsto> [111, 108, 100]], denied := {Channel}\<rparr>) of
      (r, w) \<Rightarrow>
        r = Inl OSError
        \<and> held w = {LogFile ''L'', EventObj BufferReady, EventObj DataReady, EventObj StopEvent}
        \<and> files w ''L'' = Some []
        \<and> calls w = [Call_open ''L'', Call_CreateEvent (Some ''DBWIN_BUFFER_READY''),
                      Call_CreateEvent (Some ''DBWIN_DATA_READY''), Call_CreateEvent None,
                      Call_mmap ''DBWIN_BUFFER'' 4096])"
  by (auto simp: eval_defs)

subsection \<open>The session that does nothing\<close>

text \<open>
  Claim C7. For every log path, the session the factory makes with capture disabled is a
  \<^verbatim>\<open>LogDbgView\<close>, and making it, starting it, closing it, entering and leaving it all
  return the world as it was: no file is created or written, no event or shared memory
  is opened or signaled, no call reaches the system.
\<close>

theorem null_session_untouched:
  "makeLogDbgView False path w = (Inr LogDbgView, w)
   \<and> start LogDbgView w = (None, LogDbgView, w)
   \<and> close LogDbgView w = Some (None, LogDbgView, w)
   \<and> enter LogDbgView w = (Inr PyNone, LogDbgView, w)
   \<and> exit LogDbgView w = Some (Inr PyNone, LogDbgView, w)"
  by (simp add: makeLogDbgView_def LogDbgView_init_def start_def close_def enter_def exit_def)

subsection \<open>The \<^verbatim>\<open>with\<close> statement and the explicit calls\<close>

lemma exec_body_env:
  "exec_body x (map Env sts) s w = Some (None, deliver sts s w)"
  by (induction sts arbitrary: s w) (auto split: prod.splits)

text \<open>
  Claim C8. For every session, every world and every sequence of messages and thread
  switches around the session, the \<^verbatim>\<open>with\<close> statement and the explicit
  \<^verbatim>\<open>start()\<close> ... \<^verbatim>\<open>close()\<close> end alike: the same exception or none, the same
  object, the same world, and so the same log file.
\<close>

theorem with_equals_explicit:
  "with_stmt s (map Env sts) w = explicit_use s sts w"
  by (auto simp: with_stmt_def explicit_use_def enter_def exit_def exec_body_env truthy_def
      split: prod.splits option.splits sum.splits)

subsection \<open>Decoding and logging one message\<close>

lemma utf8_decode_error: "utf8_decode bs = Inl e \<Longrightarrow> e = UnicodeDecodeError"
proof (induction bs arbitrary: e rule: utf8_decode.induct)
  case (1 bs)
  show ?case
  proof (cases "bs = []")
    case True
    then show ?thesis using "1.prems" by (simp add: utf8_decode.simps)
  next
    case False
    show ?thesis
    proof (cases "decode_one bs")
      case None
      then show ?thesis using "1.prems" False by (simp add: utf8_decode.simps [of bs])
    next
      case (Some a)
      obtain c r where a: "a = (c, r)" by (cases a)
      show ?thesis
        using "1.IH" [OF False Some a [symmetric]] "1.prems" False Some a
        by (simp add: utf8_decode.simps [of bs] split: sum.splits)
    qed
  qed
qed

lemma utf8_decode_ascii:
  "\<forall>b \<in> set bs. b < 0x80 \<Longrightarrow> utf8_decode bs = Inr (map unat bs)"
proof (induction bs)
  case Nil
  then show ?case by (simp add: utf8_decode.simps)
next
  case (Cons b bs)
  then show ?case by (simp add: utf8_decode.simps [of "b # bs"])
qed

lemma cut_at_nul:
  "(if 0 \<in> set data then utf8_decode (takeWhile (\<lambda>b. b \<noteq> 0) data) else utf8_decode data)
   = utf8_decode (takeWhile (\<lambda>b. b \<noteq> 0) data)"
proof (cases "0 \<in> set data")
  case True
  then show ?thesis by simp
next
  case False
  then have "\<forall>b \<in> set data. b \<noteq> 0" by blast
  then have tw: "takeWhile (\<lambda>b. b \<noteq> 0) data = data"
    by (simp add: takeWhile_eq_all_conv)
  show ?thesis unfolding tw by simp
qed

lemma handle_message_eq:
  assumes "\<not> buffer_closed self" "unpack_L (take 4 (channel w)) = Inr p"
  shows "handle_message self w
         = (case utf8_decode (payload self w) of
              Inl e \<Rightarrow> (Some e, w)
            | Inr s \<Rightarrow> file_write (log_file self) (format_line p s) w)"
  using assms by (simp add: handle_message_def Let_def cut_at_nul payload_def mmap_read_def)

lemma handle_message_logs:
  assumes "\<not> buffer_closed self" "\<not> closed (log_file self)"
    "unpack_L (take 4 (channel w)) = Inr p" "utf8_decode (payload self w) = Inr s"
    "list_all (encodable w) (format_line p s)"
  shows "handle_message self w = (None, logged self (format_line p s) w)"
  using assms by (simp add: handle_message_eq file_write_def logged_def)

lemma handle_message_raises:
  assumes "\<not> buffer_closed self" "unpack_L (take 4 (channel w)) = Inr p"
    "utf8_decode (payload self w) = Inl e"
  shows "handle_message self w = (Some UnicodeDecodeError, w)"
  using assms utf8_decode_error [of "payload self w" e] by (simp add: handle_message_eq)

lemma handle_message_unencodable:
  assumes "\<not> buffer_closed self" "\<not> closed (log_file self)"
    "unpack_L (take 4 (channel w)) = Inr p" "utf8_decode (payload self w) = Inr s"
    "\<not> list_all (encodable w) (format_line p s)"
  shows "handle_message self w = (Some UnicodeEncodeError, w)"
  using assms by (simp add: handle_message_eq file_write_def)

lemma payload_region:
  assumes "buffer_length self = 4096" "channel w = [b0, b1, b2, b3] @ data" "length data = 4092"
  shows "payload self w = takeWhile (\<lambda>b. b \<noteq> 0) data"
    and "unpack_L (take 4 (channel w))
         = Inr (unat b0 + 256 * unat b1 + 65536 * unat b2 + 16777216 * unat b3)"
  using assms by (simp_all add: payload_def unpack_L_def mmap_read_def)

lemma takeWhile_first_nul:
  assumes "(0::byte) \<notin> set pre"
  shows "takeWhile (\<lambda>b. b \<noteq> 0) (pre @ 0 # rest) = pre"
proof -
  have "\<forall>b \<in> set pre. b \<noteq> 0" using assms by blast
  then show ?thesis by (simp add: takeWhile_append2)
qed

lemma takeWhile_no_nul:
  assumes "(0::byte) \<notin> set data"
  shows "takeWhile (\<lambda>b. b \<noteq> 0) data = data"
proof -
  have "\<forall>b \<in> set data. b \<noteq> 0" using assms by blast
  then show ?thesis by (simp add: takeWhile_eq_all_conv)
qed

lemma run_data:
  assumes "signaled w DataReady"
  shows "run self InWait w
         = (case handle_message self (w\<lparr>signaled := (signaled w)(DataReady := False)\<rparr>) of
              (Some e, w2) \<Rightarrow> (Died e, w2)
            | (None, w2) \<Rightarrow> run self AtTop w2)"
  using assms by (simp add: run.simps(2) [of self w] wait_data)

lemma run_stop:
  assumes "\<not> signaled w DataReady" "signaled w StopEvent"
  shows "run self InWait w = (Exited, w\<lparr>signaled := (signaled w)(StopEvent := False)\<rparr>)"
  using assms by (simp add: run.simps(2) [of self w] wait_stop)

lemma run_blocked:
  assumes "\<not> signaled w DataReady" "\<not> signaled w StopEvent"
  shows "run self InWait w = (Running InWait, w)"
  using assms by (simp add: run.simps(2) [of self w] wait_none)

lemma payload_signaled [simp]: "payload self (w\<lparr>signaled := sg\<rparr>) = payload self w"
  by (simp add: payload_def)

lemma run_top: "run self AtTop w = run self InWait (SetEvent BufferReady w)"
  by (simp add: run.simps)

lemma run_logs:
  assumes "signaled w DataReady" "\<not> buffer_closed self" "\<not> closed (log_file self)"
    "unpack_L (take 4 (channel w)) = Inr p" "utf8_decode (payload self w) = Inr s"
    "list_all (encodable w) (format_line p s)"
  shows "run self InWait w
         = run self AtTop
             (logged self (format_line p s) (w\<lparr>signaled := (signaled w)(DataReady := False)\<rparr>))"
proof -
  let ?w1 = "w\<lparr>signaled := (signaled w)(DataReady := False)\<rparr>"
  have u: "unpack_L (take 4 (channel ?w1)) = Inr p" using assms(4) by simp
  have d: "utf8_decode (payload self ?w1) = Inr s" using assms(5) by simp
  have e: "list_all (encodable ?w1) (format_line p s)" using assms(6) by simp
  have "handle_message self ?w1 = (None, logged self (format_line p s) ?w1)"
    by (rule handle_message_logs [OF assms(2) assms(3) u d e])
  then show ?thesis by (simp add: run_data [OF assms(1)])
qed

lemma run_decode_error:
  assumes "signaled w DataReady" "\<not> buffer_closed self"
    "unpack_L (take 4 (channel w)) = Inr p" "utf8_decode (payload self w) = Inl e"
  shows "run self InWait w
         = (Died UnicodeDecodeError, w\<lparr>signaled := (signaled w)(DataReady := False)\<rparr>)"
proof -
  let ?w1 = "w\<lparr>signaled := (signaled w)(DataReady := False)\<rparr>"
  have u: "unpack_L (take 4 (channel ?w1)) = Inr p" using assms(3) by simp
  have d: "utf8_decode (payload self ?w1) = Inl e" using assms(4) by simp
  have "handle_message self ?w1 = (Some UnicodeDecodeError, ?w1)"
    by (rule handle_message_raises [OF assms(2) u d])
  then show ?thesis by (simp add: run_data [OF assms(1)])
qed

lemma run_encode_error:
  assumes "signaled w DataReady" "\<not> buffer_closed self" "\<not> closed (log_file self)"
    "unpack_L (take 4 (channel w)) = Inr p" "utf8_decode (payload self w) = Inr s"
    "\<not> list_all (encodable w) (format_line p s)"
  shows "run self InWait w
         = (Died UnicodeEncodeError, w\<lparr>signaled := (signaled w)(DataReady := False)\<rparr>)"
proof -
  let ?w1 = "w\<lparr>signaled := (signaled w)(DataReady := False)\<rparr>"
  have u: "unpack_L (take 4 (channel ?w1)) = Inr p" using assms(4) by simp
  have d: "utf8_decode (payload self ?w1) = Inr s" using assms(5) by simp
  have e: "\<not> list_all (encodable ?w1) (format_line p s)" using assms(6) by simp
  have "handle_message self ?w1 = (Some UnicodeEncodeError, ?w1)"
    by (rule handle_message_unencodable [OF assms(2) assms(3) u d e])
  then show ?thesis by (simp add: run_data [OF assms(1)])
qed

subsection \<open>Messages for the examples\<close>

lemma length_snapshot: "length bs \<le> 4092 \<Longrightarrow> length (snapshot p bs) = 4096"
  by (simp add: snapshot_def)

lemma payload_snapshot:
  assumes "channel w = snapshot p bs" "buffer_length self = 4096" "length bs \<le> 4092"
    "0 \<notin> set bs"
  shows "payload self w = bs"
proof -
  have "\<forall>b \<in> set bs. b \<noteq> 0" using assms(4) by blast
  then have "takeWhile (\<lambda>b. b \<noteq> 0) (bs @ replicate (4092 - length bs) 0) = bs"
    by (simp add: takeWhile_append2 takeWhile_replicate)
  then show ?thesis
    using assms by (simp add: payload_def snapshot_def mmap_read_def)
qed

lemma le_bytes:
  assumes "p < 4294967296"
  shows "p mod 256 + 256 * (p div 256 mod 256) + 65536 * (p div 65536 mod 256)
        + 16777216 * (p div 16777216) = (p::nat)"
proof -
  have a: "p mod 65536 = 256 * (p div 256 mod 256) + p mod 256"
    using mod_mult2_eq [of p 256 256] by simp
  have b: "p mod 16777216 = 65536 * (p div 65536 mod 256) + p mod 65536"
    using mod_mult2_eq [of p 65536 256] by simp
  have c: "p = 16777216 * (p div 16777216) + p mod 16777216"
    by simp
  show ?thesis using a b c by linarith
qed

lemma unpack_snapshot:
  assumes "p < 4294967296"
  shows "unpack_L (take 4 (snapshot p bs)) = Inr p"
proof -
  have "p div 16777216 < 256" using assms by simp
  then have "p div 16777216 mod 256 = p div 16777216" by simp
  then show ?thesis
    using le_bytes [OF assms] by (simp add: snapshot_def unpack_L_def unat_of_nat)
qed

lemma fresh_capture_simps [simp]:
  "buffer_length (fresh_capture path) = 4096" "\<not> buffer_closed (fresh_capture path)"
  "log_file (fresh_capture path) = \<lparr>name = path, closed = False\<rparr>"
  "thread (fresh_capture path) = NotStarted"
  by (simp_all add: fresh_capture_def)

lemma snapshot_facts:
  assumes "channel w = snapshot 100 bs" "length bs \<le> 4092" "0 \<notin> set bs"
  shows "unpack_L (take 4 (channel w)) = Inr 100"
    and "payload ((fresh_capture path)\<lparr>thread := t\<rparr>) w = bs"
proof -
  show "unpack_L (take 4 (channel w)) = Inr 100"
    using unpack_snapshot [of 100 bs] assms(1) by simp
  show "payload ((fresh_capture path)\<lparr>thread := t\<rparr>) w = bs"
    by (rule payload_snapshot [OF assms(1) _ assms(2) assms(3)]) simp
qed

lemma bad_byte: "utf8_decode [0xFF] = Inl UnicodeDecodeError"
  by (simp add: utf8_decode.simps)

lemma ff_first: "utf8_decode (0xFF # bs) = Inl UnicodeDecodeError"
  by (simp add: utf8_decode.simps [of "0xFF # bs"])

lemma foo_decodes: "utf8_decode [0x66, 0x6F, 0x6F] = Inr [102, 111, 111]"
  by (simp add: utf8_decode.simps)

lemma euro_decodes: "utf8_decode [0xE2, 0x82, 0xAC] = Inr [8364]"
  by (simp add: utf8_decode.simps is_cont_def cont_bits_def second_lo_def second_hi_def)

lemma all_encodable: "list_all (encodable quiet_host) s"
  by (simp add: quiet_host_def list_all_iff)

lemma quiet_encodable [simp]:
  "encodable (quiet_host\<lparr>channel := c\<rparr>) = encodable quiet_host"
  by simp

subsection \<open>The decode-and-log step\<close>

text \<open>
  Claim C1, as the code has it. For every buffer content received on data-ready, with the
  buffer and the log file open: when the bytes up to the first NUL are well-formed UTF-8
  and the log file's encoding has a form for every character of the line, the loop
  writes that one line and goes on to its next iteration; when the bytes are not
  well-formed UTF-8, \<^verbatim>\<open>str(data, 'UTF-8')\<close> raises, and when the file cannot encode
  the line, \<^verbatim>\<open>write\<close> raises: nothing is written, and the exception ends the loop
  and the thread.
\<close>

theorem data_ready_step:
  assumes "signaled w DataReady" "\<not> buffer_closed self" "\<not> closed (log_file self)"
    "unpack_L (take 4 (channel w)) = Inr p"
  shows "(\<forall>s. utf8_decode (payload self w) = Inr s \<and> list_all (encodable w) (format_line p s)
            \<longrightarrow> run self InWait w
                 = run self AtTop
                     (logged self (format_line p s)
                        (w\<lparr>signaled := (signaled w)(DataReady := False)\<rparr>)))
         \<and> (\<forall>e. utf8_decode (payload self w) = Inl e
            \<longrightarrow> run self InWait w
                 = (Died UnicodeDecodeError, w\<lparr>signaled := (signaled w)(DataReady := False)\<rparr>))
         \<and> (\<forall>s. utf8_decode (payload self w) = Inr s
                \<and> \<not> list_all (encodable w) (format_line p s)
            \<longrightarrow> run self InWait w
                 = (Died UnicodeEncodeError, w\<lparr>signaled := (signaled w)(DataReady := False)\<rparr>))"
proof (intro conjI allI impI)
  fix s
  assume "utf8_decode (payload self w) = Inr s \<and> list_all (encodable w) (format_line p s)"
  then show "run self InWait w
             = run self AtTop
                 (logged self (format_line p s)
                    (w\<lparr>signaled := (signaled w)(DataReady := False)\<rparr>))"
    using run_logs [OF assms] by blast
next
  fix e
  assume "utf8_decode (payload self w) = Inl e"
  then show "run self InWait w
             = (Died UnicodeDecodeError, w\<lparr>signaled := (signaled w)(DataReady := False)\<rparr>)"
    using run_decode_error [OF assms(1) assms(2) assms(4)] by blast
next
  fix s
  assume "utf8_decode (payload self w) = Inr s
          \<and> \<not> list_all (encodable w) (format_line p s)"
  then show "run self InWait w
             = (Died UnicodeEncodeError, w\<lparr>signaled := (signaled w)(DataReady := False)\<rparr>)"
    using run_encode_error [OF assms] by blast
qed

theorem data_ready_step_witness:
  "run ((fresh_capture ''L'')\<lparr>thread := Running InWait\<rparr>) InWait
     (quiet_host\<lparr>channel := snapshot 100 [0x66, 0x6F, 0x6F],
                 signaled := (\<lambda>ev. ev = DataReady)\<rparr>)
   = run ((fresh_capture ''L'')\<lparr>thread := Running InWait\<rparr>) AtTop
       (logged ((fresh_capture ''L'')\<lparr>thread := Running InWait\<rparr>)
          (format_line 100 [102, 111, 111])
          (quiet_host\<lparr>channel := snapshot 100 [0x66, 0x6F, 0x6F],
                      signaled := (\<lambda>ev. ev = DataReady)\<rparr>
             \<lparr>signaled := (\<lambda>ev. ev = DataReady)(DataReady := False)\<rparr>))
   \<and> run ((fresh_capture ''L'')\<lparr>thread := Running InWait\<rparr>) InWait
     (quiet_host\<lparr>channel := snapshot 100 [0xFF], signaled := (\<lambda>ev. ev = DataReady)\<rparr>)
   = (Died UnicodeDecodeError,
      quiet_host\<lparr>channel := snapshot 100 [0xFF], signaled := (\<lambda>ev. ev = DataReady)\<rparr>
        \<lparr>signaled := (\<lambda>ev. ev = DataReady)(DataReady := False)\<rparr>)
   \<and> run ((fresh_capture ''L'')\<lparr>thread := Running InWait\<rparr>) InWait
     (quiet_host\<lparr>encodable := (\<lambda>c. c < 256), channel := snapshot 100 [0xE2, 0x82, 0xAC],
                 signaled := (\<lambda>ev. ev = DataReady)\<rparr>)
   = (Died UnicodeEncodeError,
      quiet_host\<lparr>encodable := (\<lambda>c. c < 256), channel := snapshot 100 [0xE2, 0x82, 0xAC],
                 signaled := (\<lambda>ev. ev = DataReady)\<rparr>
        \<lparr>signaled := (\<lambda>ev. ev = DataReady)(DataReady := False)\<rparr>)"
proof -
  let ?self = "(fresh_capture ''L'')\<lparr>thread := Running InWait\<rparr>"
  let ?wa = "quiet_host\<lparr>channel := snapshot 100 [0x66, 0x6F, 0x6F],
                        signaled := (\<lambda>ev. ev = DataReady)\<rparr>"
  let ?wb = "quiet_host\<lparr>channel := snapshot 100 [0xFF], signaled := (\<lambda>ev. ev = DataReady)\<rparr>"
  let ?wc = "quiet_host\<lparr>encodable := (\<lambda>c. c < 256),
                        channel := snapshot 100 [0xE2, 0x82, 0xAC],
                        signaled := (\<lambda>ev. ev = DataReady)\<rparr>"
  have s: "\<not> buffer_closed ?self" "\<not> closed (log_file ?self)" by simp_all
  have da: "signaled ?wa DataReady" and db: "signaled ?wb DataReady"
    and dc: "signaled ?wc DataReady" by simp_all
  have ua: "unpack_L (take 4 (channel ?wa)) = Inr 100"
    by (rule snapshot_facts(1) [of _ "[0x66, 0x6F, 0x6F]"]) simp_all
  have ub: "unpack_L (take 4 (channel ?wb)) = Inr 100"
    by (rule snapshot_facts(1) [of _ "[0xFF]"]) simp_all
  have uc: "unpack_L (take 4 (channel ?wc)) = Inr 100"
    by (rule snapshot_facts(1) [of _ "[0xE2, 0x82, 0xAC]"]) simp_all
  have pa: "payload ?self ?wa = [0x66, 0x6F, 0x6F]"
    by (rule snapshot_facts(2)) simp_all
  have pb: "payload ?self ?wb = [0xFF]"
    by (rule snapshot_facts(2)) simp_all
  have pc: "payload ?self ?wc = [0xE2, 0x82, 0xAC]"
    by (rule snapshot_facts(2)) simp_all
  have ea: "list_all (encodable ?wa) (format_line 100 [102, 111, 111])"
    using all_encodable by simp
  have A: "utf8_decode (payload ?self ?wa) = Inr [102, 111, 111]
           \<and> list_all (encodable ?wa) (format_line 100 [102, 111, 111])"
    using pa ea foo_decodes by simp
  have B: "utf8_decode (payload ?self ?wb) = Inl UnicodeDecodeError"
    using pb bad_byte by simp
  have C: "utf8_decode (payload ?self ?wc) = Inr [8364]
           \<and> \<not> list_all (encodable ?wc) (format_line 100 [8364])"
    using pc euro_decodes by (simp add: format_line_def)
  show ?thesis
    using data_ready_step [OF da s ua, THEN conjunct1, rule_format, OF A]
      data_ready_step [OF db s ub, THEN conjunct2, THEN conjunct1, rule_format, OF B]
      data_ready_step [OF dc s uc, THEN conjunct2, THEN conjunct2, rule_format, OF C]
    by simp
qed

text \<open>
  The claim as the specification states it fails: process 100 sends the single byte FF.
  The loop takes the message, writes nothing, and ends with \<^verbatim>\<open>UnicodeDecodeError\<close>.
\<close>

theorem decode_raises_counterexample:
  "run ((fresh_capture ''L'')\<lparr>thread := Running InWait\<rparr>) InWait
     (quiet_host\<lparr>channel := snapshot 100 [0xFF], signaled := (\<lambda>ev. ev = DataReady)\<rparr>)
   = (Died UnicodeDecodeError,
      quiet_host\<lparr>channel := snapshot 100 [0xFF], signaled := (\<lambda>ev. False)\<rparr>)"
proof -
  let ?self = "(fresh_capture ''L'')\<lparr>thread := Running InWait\<rparr>"
  let ?w = "quiet_host\<lparr>channel := snapshot 100 [0xFF], signaled := (\<lambda>ev. ev = DataReady)\<rparr>"
  let ?w1 = "quiet_host\<lparr>channel := snapshot 100 [0xFF], signaled := (\<lambda>ev. False)\<rparr>"
  have w1: "?w\<lparr>signaled := (signaled ?w)(DataReady := False)\<rparr> = ?w1"
    by (auto simp: fun_eq_iff)
  have b: "\<not> buffer_closed ?self" and l: "buffer_length ?self = 4096"
    by simp_all
  have u: "unpack_L (take 4 (channel ?w1)) = Inr 100"
    using unpack_snapshot [of 100 "[0xFF]"] by simp
  have "payload ?self ?w1 = [0xFF]"
    by (rule payload_snapshot [of _ 100]) simp_all
  then have p: "utf8_decode (payload ?self ?w1) = Inl UnicodeDecodeError"
    by (simp add: bad_byte)
  have h: "handle_message ?self ?w1 = (Some UnicodeDecodeError, ?w1)"
    by (rule handle_message_raises [OF b u p])
  have d: "signaled ?w DataReady" by simp
  show ?thesis
    unfolding run_data [OF d] w1 h by simp
qed

subsection \<open>The line written\<close>

text \<open>
  Claim C4, as the code has it. For every message (four bytes of process id, 4092 bytes
  of payload region) whose bytes to be decoded are well-formed UTF-8 and whose line the
  log file can encode: when the region has a NUL, the text logged is the decoding of
  exactly the bytes before the first NUL; when it has none, the decoding of the whole
  region; the line written is \<^verbatim>\<open>Process \<close>, the process id in decimal, \<^verbatim>\<open>: \<close>, that
  text, and a newline.
\<close>

theorem logged_line:
  assumes "\<not> buffer_closed self" "\<not> closed (log_file self)" "buffer_length self = 4096"
    "channel w = [b0, b1, b2, b3] @ data" "length data = 4092"
    "p = unat b0 + 256 * unat b1 + 65536 * unat b2 + 16777216 * unat b3"
    "list_all (encodable w) (format_line p s)"
  shows "(\<forall>pre rest. data = pre @ 0 # rest \<and> 0 \<notin> set pre \<and> utf8_decode pre = Inr s
            \<longrightarrow> handle_message self w
                 = (None, logged self
                      (of_ascii ''Process '' @ decimal p @ of_ascii '': '' @ s @ [10]) w))
         \<and> (0 \<notin> set data \<and> utf8_decode data = Inr s
            \<longrightarrow> handle_message self w
                 = (None, logged self
                      (of_ascii ''Process '' @ decimal p @ of_ascii '': '' @ s @ [10]) w))"
proof -
  have pl: "payload self w = takeWhile (\<lambda>b. b \<noteq> 0) data"
    by (rule payload_region(1) [OF assms(3) assms(4) assms(5)])
  have u: "unpack_L (take 4 (channel w)) = Inr p"
    using payload_region(2) [OF assms(3) assms(4) assms(5)] assms(6) by simp
  have fl: "format_line p s = of_ascii ''Process '' @ decimal p @ of_ascii '': '' @ s @ [10]"
    by (simp add: format_line_def)
  show ?thesis
  proof (intro conjI allI impI)
    fix pre rest
    assume a: "data = pre @ 0 # rest \<and> 0 \<notin> set pre \<and> utf8_decode pre = Inr s"
    then have "payload self w = pre"
      using pl takeWhile_first_nul [of pre rest] by simp
    then have "utf8_decode (payload self w) = Inr s" using a by simp
    then show "handle_message self w
                 = (None, logged self
                      (of_ascii ''Process '' @ decimal p @ of_ascii '': '' @ s @ [10]) w)"
      using handle_message_logs [OF assms(1) assms(2) u _ assms(7)] fl by simp
  next
    assume a: "0 \<notin> set data \<and> utf8_decode data = Inr s"
    then have "payload self w = data"
      using pl takeWhile_no_nul [of data] by simp
    then have "utf8_decode (payload self w) = Inr s" using a by simp
    then show "handle_message self w
                 = (None, logged self
                      (of_ascii ''Process '' @ decimal p @ of_ascii '': '' @ s @ [10]) w)"
      using handle_message_logs [OF assms(1) assms(2) u _ assms(7)] fl by simp
  qed
qed

theorem logged_line_witness:
  "handle_message ((fresh_capture ''L'')\<lparr>thread := Running InWait\<rparr>)
     (quiet_host\<lparr>channel := [100, 0, 0, 0] @ [0x66, 0x6F, 0x6F] @ 0 # replicate 4088 0\<rparr>)
   = (None, logged ((fresh_capture ''L'')\<lparr>thread := Running InWait\<rparr>)
        (of_ascii ''Process '' @ decimal 100 @ of_ascii '': '' @ [102, 111, 111] @ [10])
        (quiet_host\<lparr>channel := [100, 0, 0, 0] @ [0x66, 0x6F, 0x6F] @ 0 # replicate 4088 0\<rparr>))
   \<and> handle_message ((fresh_capture ''L'')\<lparr>thread := Running InWait\<rparr>)
     (quiet_host\<lparr>channel := [100, 0, 0, 0] @ replicate 4092 0x41\<rparr>)
   = (None, logged ((fresh_capture ''L'')\<lparr>thread := Running InWait\<rparr>)
        (of_ascii ''Process '' @ decimal 100 @ of_ascii '': '' @ replicate 4092 65 @ [10])
        (quiet_host\<lparr>channel := [100, 0, 0, 0] @ replicate 4092 0x41\<rparr>))"
proof -
  let ?self = "(fresh_capture ''L'')\<lparr>thread := Running InWait\<rparr>"
  let ?a = "[0x66, 0x6F, 0x6F] @ 0 # replicate 4088 (0::byte)"
  let ?b = "replicate 4092 (0x41::byte)"
  let ?wa = "quiet_host\<lparr>channel := [100, 0, 0, 0] @ ?a\<rparr>"
  let ?wb = "quiet_host\<lparr>channel := [100, 0, 0, 0] @ ?b\<rparr>"
  have s: "\<not> buffer_closed ?self" "\<not> closed (log_file ?self)" "buffer_length ?self = 4096"
    by simp_all
  have p: "(100::nat) = unat (100::byte) + 256 * unat (0::byte) + 65536 * unat (0::byte)
             + 16777216 * unat (0::byte)"
    by simp
  have ea: "list_all (encodable ?wa) (format_line 100 [102, 111, 111])"
    and eb: "list_all (encodable ?wb) (format_line 100 (replicate 4092 65))"
    using all_encodable by simp_all
  have la: "length ?a = 4092" and lb: "length ?b = 4092" by simp_all
  have ca: "channel ?wa = [100, 0, 0, 0] @ ?a" and cb: "channel ?wb = [100, 0, 0, 0] @ ?b"
    by simp_all
  have na: "(0::byte) \<notin> set [0x66, 0x6F, 0x6F]" by simp
  have nb: "(0::byte) \<notin> set ?b" by simp
  have db: "utf8_decode ?b = Inr (replicate 4092 65)"
    using utf8_decode_ascii [of ?b] by simp
  note A = logged_line [OF s ca la p ea, THEN conjunct1, rule_format,
      of "[0x66, 0x6F, 0x6F]" "replicate 4088 0"]
  note B = logged_line [OF s cb lb p eb, THEN conjunct2, rule_format]
  show ?thesis
    using A [OF conjI [OF refl conjI [OF na foo_decodes]]] B [OF conjI [OF nb db]]
    by (intro conjI)
qed

text \<open>
  The claim as the specification states it fails for a message whose bytes are not
  UTF-8, with a NUL (FF, then zeros) or without one (FF, then 4091 letters A): no line
  is written at all.
\<close>

theorem undecodable_payload_counterexample:
  "handle_message ((fresh_capture ''L'')\<lparr>thread := Running InWait\<rparr>)
     (quiet_host\<lparr>channel := [100, 0, 0, 0] @ [0xFF] @ 0 # replicate 4090 0\<rparr>)
   = (Some UnicodeDecodeError,
      quiet_host\<lparr>channel := [100, 0, 0, 0] @ [0xFF] @ 0 # replicate 4090 0\<rparr>)
   \<and> handle_message ((fresh_capture ''L'')\<lparr>thread := Running InWait\<rparr>)
     (quiet_host\<lparr>channel := [100, 0, 0, 0] @ 0xFF # replicate 4091 0x41\<rparr>)
   = (Some UnicodeDecodeError,
      quiet_host\<lparr>channel := [100, 0, 0, 0] @ 0xFF # replicate 4091 0x41\<rparr>)"
proof -
  let ?self = "(fresh_capture ''L'')\<lparr>thread := Running InWait\<rparr>"
  let ?a = "[0xFF] @ 0 # replicate 4090 (0::byte)"
  let ?b = "0xFF # replicate 4091 (0x41::byte)"
  let ?wa = "quiet_host\<lparr>channel := [100, 0, 0, 0] @ ?a\<rparr>"
  let ?wb = "quiet_host\<lparr>channel := [100, 0, 0, 0] @ ?b\<rparr>"
  have b: "\<not> buffer_closed ?self" and l: "buffer_length ?self = 4096" by simp_all
  have ca: "channel ?wa = [100, 0, 0, 0] @ ?a" and cb: "channel ?wb = [100, 0, 0, 0] @ ?b"
    by simp_all
  have la: "length ?a = 4092" and lb: "length ?b = 4092" by simp_all
  have "payload ?self ?wa = takeWhile (\<lambda>b. b \<noteq> 0) ?a"
    by (rule payload_region(1) [OF l ca la])
  then have pa: "utf8_decode (payload ?self ?wa) = Inl UnicodeDecodeError"
    by (simp add: bad_byte)
  have "payload ?self ?wb = takeWhile (\<lambda>b. b \<noteq> 0) ?b"
    by (rule payload_region(1) [OF l cb lb])
  then have pb: "utf8_decode (payload ?self ?wb) = Inl UnicodeDecodeError"
    by (simp add: ff_first)
  show ?thesis
    using handle_message_raises [OF b payload_region(2) [OF l ca la] pa]
      handle_message_raises [OF b payload_region(2) [OF l cb lb] pb]
    by (intro conjI)
qed

subsection \<open>Data-ready before stop\<close>

lemma logged_simps [simp]:
  "signaled (logged self line w) = signaled w"
  "channel (logged self line w) = channel w"
  "logged self line (w\<lparr>signaled := sg\<rparr>) = (logged self line w)\<lparr>signaled := sg\<rparr>"
  by (simp_all add: logged_def)

lemma exit_means_logged_wait:
  assumes "run self InWait w = (Exited, w1)" "signaled w DataReady" "\<not> buffer_closed self"
    "unpack_L (take 4 (channel w)) = Inr p"
  shows "\<exists>s. utf8_decode (payload self w) = Inr s
             \<and> files w1 = files (logged self (format_line p s) w)"
proof -
  let ?w1 = "w\<lparr>signaled := (signaled w)(DataReady := False)\<rparr>"
  have u: "unpack_L (take 4 (channel ?w1)) = Inr p" using assms(4) by simp
  have hm: "handle_message self ?w1
            = (case utf8_decode (payload self w) of
                 Inl e \<Rightarrow> (Some e, ?w1)
               | Inr s \<Rightarrow> file_write (log_file self) (format_line p s) ?w1)"
    using handle_message_eq [OF assms(3) u] by simp
  show ?thesis
  proof (cases "utf8_decode (payload self w)")
    case (Inl e)
    then show ?thesis using assms(1) hm by (simp add: run_data [OF assms(2)])
  next
    case (Inr s)
    show ?thesis
    proof (cases "closed (log_file self) \<or> \<not> list_all (encodable w) (format_line p s)")
      case True
      then have "fst (file_write (log_file self) (format_line p s) ?w1) \<noteq> None"
        by (auto simp: file_write_def)
      then show ?thesis
        using assms(1) hm Inr by (auto simp: run_data [OF assms(2)] split: prod.splits option.splits)
    next
      case False
      then have fw: "file_write (log_file self) (format_line p s) ?w1
                     = (None, logged self (format_line p s) ?w1)"
        by (simp add: file_write_def logged_def)
      let ?w2 = "SetEvent BufferReady (logged self (format_line p s) ?w1)"
      have r: "run self InWait w = run self InWait ?w2"
        using hm Inr fw by (simp add: run_data [OF assms(2)] run_top)
      have nd: "\<not> signaled ?w2 DataReady" by (simp add: SetEvent_def)
      show ?thesis
      proof (cases "signaled ?w2 StopEvent")
        case True
        have "w1 = ?w2\<lparr>signaled := (signaled ?w2)(StopEvent := False)\<rparr>"
          using assms(1) r run_stop [OF nd True, of self] by simp
        then have "files w1 = files (logged self (format_line p s) w)"
          by (simp add: SetEvent_def logged_def)
        then show ?thesis using Inr by simp
      next
        case False
        then show ?thesis
          using assms(1) r run_blocked [OF nd False, of self] by simp
      qed
    qed
  qed
qed

lemma exit_means_logged:
  assumes "run self q w = (Exited, w1)" "signaled w DataReady" "\<not> buffer_closed self"
    "unpack_L (take 4 (channel w)) = Inr p"
  shows "\<exists>s. utf8_decode (payload self w) = Inr s
             \<and> files w1 = files (logged self (format_line p s) w)"
proof (cases q)
  case InWait
  then show ?thesis using exit_means_logged_wait assms by simp
next
  case AtTop
  let ?w0 = "SetEvent BufferReady w"
  have a: "run self InWait ?w0 = (Exited, w1)" using assms(1) AtTop by (simp add: run_top)
  have b: "signaled ?w0 DataReady" using assms(2) by (simp add: SetEvent_def)
  have c: "unpack_L (take 4 (channel ?w0)) = Inr p" using assms(4) by (simp add: SetEvent_def)
  have "payload self ?w0 = payload self w" by (simp add: SetEvent_def)
  moreover have "files (logged self line ?w0) = files (logged self line w)" for line
    by (simp add: SetEvent_def logged_def)
  ultimately show ?thesis
    using exit_means_logged_wait [OF a b assms(3) c] by simp
qed

lemma run_both:
  assumes "signaled w DataReady" "signaled w StopEvent" "\<not> buffer_closed self"
    "\<not> closed (log_file self)" "unpack_L (take 4 (channel w)) = Inr p"
    "utf8_decode (payload self w) = Inr s" "list_all (encodable w) (format_line p s)"
  shows "run self InWait w
         = (Exited, logged self (format_line p s)
              (w\<lparr>signaled := (signaled w)(DataReady := False, BufferReady := True,
                                           StopEvent := False)\<rparr>))"
proof -
  let ?w1 = "w\<lparr>signaled := (signaled w)(DataReady := False)\<rparr>"
  have u: "unpack_L (take 4 (channel ?w1)) = Inr p" using assms(5) by simp
  have d: "utf8_decode (payload self ?w1) = Inr s" using assms(6) by simp
  have e: "list_all (encodable ?w1) (format_line p s)" using assms(7) by simp
  have hm: "handle_message self ?w1 = (None, logged self (format_line p s) ?w1)"
    by (rule handle_message_logs [OF assms(3) assms(4) u d e])
  let ?w2 = "SetEvent BufferReady (logged self (format_line p s) ?w1)"
  have r: "run self InWait w = run self InWait ?w2"
    using hm by (simp add: run_data [OF assms(1)] run_top)
  have nd: "\<not> signaled ?w2 DataReady" by (simp add: SetEvent_def)
  have st: "signaled ?w2 StopEvent" using assms(2) by (simp add: SetEvent_def)
  show ?thesis
    unfolding r run_stop [OF nd st] by (simp add: SetEvent_def logged_def)
qed

text \<open>
  Claim C10, as the code has it. When data-ready and stop are both signaled the wait
  returns the index of data-ready and leaves stop signaled; if the message decodes and
  can be written, the loop logs it and leaves by \<^verbatim>\<open>break\<close> on the next iteration. The
  loop never leaves by \<^verbatim>\<open>break\<close> with a message taken and not logged: whenever it ends
  by \<^verbatim>\<open>break\<close> after data-ready was signaled, the line of that message is in the log.
  When the wait returns the index of stop, the loop ends and the world is as before but
  for the stop event, reset: nothing is written.
\<close>

theorem data_ready_priority:
  "(signaled w DataReady \<and> signaled w StopEvent
      \<longrightarrow> WaitForMultipleObjects [DataReady, StopEvent] w
            = Some (0, w\<lparr>signaled := (signaled w)(DataReady := False)\<rparr>)
          \<and> signaled (w\<lparr>signaled := (signaled w)(DataReady := False)\<rparr>) StopEvent)
   \<and> (signaled w DataReady \<and> signaled w StopEvent \<and> \<not> buffer_closed self
        \<and> \<not> closed (log_file self) \<and> unpack_L (take 4 (channel w)) = Inr p
        \<and> utf8_decode (payload self w) = Inr s \<and> list_all (encodable w) (format_line p s)
      \<longrightarrow> run self InWait w
            = (Exited, logged self (format_line p s)
                 (w\<lparr>signaled := (signaled w)(DataReady := False, BufferReady := True,
                                              StopEvent := False)\<rparr>)))
   \<and> (run self q w = (Exited, w1) \<and> signaled w DataReady \<and> \<not> buffer_closed self
        \<and> unpack_L (take 4 (channel w)) = Inr p
      \<longrightarrow> (\<exists>s'. utf8_decode (payload self w) = Inr s'
                 \<and> files w1 = files (logged self (format_line p s') w)))
   \<and> (\<not> signaled w DataReady \<and> signaled w StopEvent
      \<longrightarrow> WaitForMultipleObjects [DataReady, StopEvent] w
            = Some (1, w\<lparr>signaled := (signaled w)(StopEvent := False)\<rparr>)
          \<and> run self InWait w = (Exited, w\<lparr>signaled := (signaled w)(StopEvent := False)\<rparr>))"
proof (intro conjI impI)
  assume "signaled w DataReady \<and> signaled w StopEvent"
  then show "WaitForMultipleObjects [DataReady, StopEvent] w
             = Some (0, w\<lparr>signaled := (signaled w)(DataReady := False)\<rparr>)"
    by (simp add: wait_data)
next
  assume "signaled w DataReady \<and> signaled w StopEvent"
  then show "signaled (w\<lparr>signaled := (signaled w)(DataReady := False)\<rparr>) StopEvent"
    by simp
next
  assume "signaled w DataReady \<and> signaled w StopEvent \<and> \<not> buffer_closed self
        \<and> \<not> closed (log_file self) \<and> unpack_L (take 4 (channel w)) = Inr p
        \<and> utf8_decode (payload self w) = Inr s \<and> list_all (encodable w) (format_line p s)"
  then show "run self InWait w
            = (Exited, logged self (format_line p s)
                 (w\<lparr>signaled := (signaled w)(DataReady := False, BufferReady := True,
                                              StopEvent := False)\<rparr>))"
    using run_both by blast
next
  assume "run self q w = (Exited, w1) \<and> signaled w DataReady \<and> \<not> buffer_closed self
        \<and> unpack_L (take 4 (channel w)) = Inr p"
  then show "\<exists>s'. utf8_decode (payload self w) = Inr s'
                 \<and> files w1 = files (logged self (format_line p s') w)"
    using exit_means_logged by blast
next
  assume "\<not> signaled w DataReady \<and> signaled w StopEvent"
  then show "WaitForMultipleObjects [DataReady, StopEvent] w
            = Some (1, w\<lparr>signaled := (signaled w)(StopEvent := False)\<rparr>)"
    by (simp add: wait_stop)
next
  assume "\<not> signaled w DataReady \<and> signaled w StopEvent"
  then show "run self InWait w = (Exited, w\<lparr>signaled := (signaled w)(StopEvent := False)\<rparr>)"
    by (simp add: run_stop)
qed

theorem data_ready_priority_witness:
  "run ((fresh_capture ''L'')\<lparr>thread := Running InWait\<rparr>) InWait
     (quiet_host\<lparr>channel := snapshot 100 [0x66, 0x6F, 0x6F],
                 signaled := (\<lambda>ev. ev \<noteq> BufferReady)\<rparr>)
   = (Exited,
      logged ((fresh_capture ''L'')\<lparr>thread := Running InWait\<rparr>)
        (format_line 100 [102, 111, 111])
        (quiet_host\<lparr>channel := snapshot 100 [0x66, 0x6F, 0x6F],
                    signaled := (\<lambda>ev. ev \<noteq> BufferReady)\<rparr>
           \<lparr>signaled := (\<lambda>ev. ev \<noteq> BufferReady)
                (DataReady := False, BufferReady := True, StopEvent := False)\<rparr>))
   \<and> run ((fresh_capture ''L'')\<lparr>thread := Running InWait\<rparr>) InWait
       (quiet_host\<lparr>signaled := (\<lambda>ev. ev = StopEvent)\<rparr>)
     = (Exited, quiet_host\<lparr>signaled := (\<lambda>ev. ev = StopEvent)\<rparr>
                  \<lparr>signaled := (\<lambda>ev. ev = StopEvent)(StopEvent := False)\<rparr>)"
proof -
  let ?self = "(fresh_capture ''L'')\<lparr>thread := Running InWait\<rparr>"
  let ?w = "quiet_host\<lparr>channel := snapshot 100 [0x66, 0x6F, 0x6F],
                       signaled := (\<lambda>ev. ev \<noteq> BufferReady)\<rparr>"
  let ?ws = "quiet_host\<lparr>signaled := (\<lambda>ev. ev = StopEvent)\<rparr>"
  have u: "unpack_L (take 4 (channel ?w)) = Inr 100"
    by (rule snapshot_facts(1) [of _ "[0x66, 0x6F, 0x6F]"]) simp_all
  have "payload ?self ?w = [0x66, 0x6F, 0x6F]"
    by (rule snapshot_facts(2)) simp_all
  then have p: "utf8_decode (payload ?self ?w) = Inr [102, 111, 111]"
    using foo_decodes by simp
  have e: "list_all (encodable ?w) (format_line 100 [102, 111, 111])"
    using all_encodable by simp
  have A: "signaled ?w DataReady \<and> signaled ?w StopEvent \<and> \<not> buffer_closed ?self
        \<and> \<not> closed (log_file ?self) \<and> unpack_L (take 4 (channel ?w)) = Inr 100
        \<and> utf8_decode (payload ?self ?w) = Inr [102, 111, 111]
        \<and> list_all (encodable ?w) (format_line 100 [102, 111, 111])"
    using u p e by simp
  have B: "\<not> signaled ?ws DataReady \<and> signaled ?ws StopEvent" by simp
  note T1 = data_ready_priority [where w = ?w and self = ?self and p = 100
      and s = "[102, 111, 111]", THEN conjunct2, THEN conjunct1, rule_format, OF A]
  note T2 = data_ready_priority [where w = ?ws and self = ?self,
      THEN conjunct2, THEN conjunct2, THEN conjunct2, rule_format, OF B]
  show ?thesis
    using T1 T2 by simp
qed

text \<open>
  The claim as the specification states it fails: with both events signaled and a
  payload that is not UTF-8, the loop takes the message, logs nothing, and ends by the
  exception; the stop event is still signaled, never observed.
\<close>

theorem stop_never_seen_counterexample:
  "run ((fresh_capture ''L'')\<lparr>thread := Running InWait\<rparr>) InWait
     (quiet_host\<lparr>channel := snapshot 100 [0xFF], signaled := (\<lambda>ev. ev \<noteq> BufferReady)\<rparr>)
   = (Died UnicodeDecodeError,
      quiet_host\<lparr>channel := snapshot 100 [0xFF], signaled := (\<lambda>ev. ev = StopEvent)\<rparr>)"
proof -
  let ?self = "(fresh_capture ''L'')\<lparr>thread := Running InWait\<rparr>"
  let ?w = "quiet_host\<lparr>channel := snapshot 100 [0xFF], signaled := (\<lambda>ev. ev \<noteq> BufferReady)\<rparr>"
  have d: "signaled ?w DataReady" and b: "\<not> buffer_closed ?self" by simp_all
  have u: "unpack_L (take 4 (channel ?w)) = Inr 100"
    by (rule snapshot_facts(1) [of _ "[0xFF]"]) simp_all
  have "payload ?self ?w = [0xFF]"
    by (rule snapshot_facts(2)) simp_all
  then have p: "utf8_decode (payload ?self ?w) = Inl UnicodeDecodeError"
    using bad_byte by simp
  have sg: "(\<lambda>ev. ev \<noteq> BufferReady)(DataReady := False) = (\<lambda>ev. ev = StopEvent)"
  proof (rule ext)
    fix ev
    show "((\<lambda>ev. ev \<noteq> BufferReady)(DataReady := False)) ev = (ev = StopEvent)"
      by (cases ev) simp_all
  qed
  have "?w\<lparr>signaled := (signaled ?w)(DataReady := False)\<rparr>
        = quiet_host\<lparr>channel := snapshot 100 [0xFF], signaled := (\<lambda>ev. ev = StopEvent)\<rparr>"
    by (simp add: sg)
  then show ?thesis
    using run_decode_error [OF d b u p] by simp
qed

subsection \<open>The name a \<^verbatim>\<open>with\<close> statement binds\<close>

lemma advance_started: "was_started s \<Longrightarrow> was_started (fst (advance s w))"
proof (cases s)
  case LogDbgView
  then show ?thesis by (simp add: advance_def was_started_def)
next
  case (LogDbgViewReal self)
  assume st: "was_started s"
  show ?thesis
  proof (cases "thread self")
    case (Running p)
    obtain ts w1 where r: "run self p w = (ts, w1)" by (cases "run self p w")
    have "ts \<noteq> NotStarted" using run_result [of self p w] r by auto
    then show ?thesis
      using LogDbgViewReal Running r by (simp add: advance_def was_started_def)
  qed (use LogDbgViewReal st in \<open>simp_all add: advance_def was_started_def\<close>)
qed

lemma env_apply_started: "was_started s \<Longrightarrow> was_started (fst (env_apply st s w))"
  using advance_started [of s w]
  by (cases st) (auto simp: env_apply_def split: prod.splits)

lemma deliver_started: "was_started s \<Longrightarrow> was_started (fst (deliver sts s w))"
proof (induction sts arbitrary: s w)
  case Nil
  then show ?case by simp
next
  case (Cons st sts)
  obtain s1 w1 where e: "env_apply st s w = (s1, w1)" by (cases "env_apply st s w")
  have "was_started s1" using env_apply_started [OF Cons.prems, of st w] e by simp
  then show ?case using Cons.IH [of s1 w1] e by simp
qed

lemma start_started: "fst (start s w) = None \<Longrightarrow> was_started (fst (snd (start s w)))"
  by (cases s) (auto simp: start_def Thread_start_def Let_def was_started_def split: if_splits)

lemma close_started:
  assumes "was_started s"
  shows "\<exists>s' w'. close s w = Some (None, s', w')"
proof (cases s)
  case LogDbgView
  then show ?thesis by (simp add: close_def)
next
  case (LogDbgViewReal self)
  let ?w1 = "SetEvent StopEvent (called (Call_SetEvent StopEvent) w)"
  have sg: "signaled ?w1 StopEvent" by (simp add: SetEvent_def)
  have ns: "thread self \<noteq> NotStarted" using assms LogDbgViewReal by (simp add: was_started_def)
  obtain self1 w2 where "Thread_join self ?w1 = Some (None, self1, w2)"
    using join_started [OF ns sg] by blast
  then show ?thesis
    using LogDbgViewReal
    by (simp add: close_def LogDbgViewReal_close_def Let_def mmap_close_def file_close_def
        split: prod.splits)
qed

lemma exec_body_deref:
  "exec_body PyNone (map Env sts @ CallBound m # rest) s w
   = Some (Some AttributeError, deliver sts s w)"
  by (induction sts arbitrary: s w) (auto simp: call_method_def split: prod.splits)

text \<open>
  Claim C9. For every session, \<^verbatim>\<open>__enter__\<close> does what \<^verbatim>\<open>start()\<close> does and never
  returns the session: when \<^verbatim>\<open>start()\<close> does not raise, its value, the one the
  \<^verbatim>\<open>with\<close> statement binds, is \<^verbatim>\<open>None\<close>. Every call of a session method on
  \<^verbatim>\<open>None\<close> raises \<^verbatim>\<open>AttributeError\<close>, so a \<^verbatim>\<open>with\<close> statement whose body calls a
  method on the bound name ends with that exception (after \<^verbatim>\<open>__exit__\<close> has run).
\<close>

theorem bound_name_is_None:
  "fst (enter s w) \<noteq> Inr PySelf
   \<and> snd (enter s w) = snd (start s w)
   \<and> call_method PyNone m s' w' = Some (Some AttributeError, s', w')
   \<and> (fst (start s w) = None
       \<longrightarrow> fst (enter s w) = Inr PyNone
           \<and> (\<exists>s2 w2. with_stmt s (map Env sts @ CallBound m # rest) w
                        = Some (Some AttributeError, s2, w2)))"
proof (intro conjI impI)
  show "fst (enter s w) \<noteq> Inr PySelf"
    by (auto simp: enter_def split: prod.splits option.splits)
  show "snd (enter s w) = snd (start s w)"
    by (auto simp: enter_def split: prod.splits option.splits)
  show "call_method PyNone m s' w' = Some (Some AttributeError, s', w')"
    by (simp add: call_method_def)
next
  assume a: "fst (start s w) = None"
  then show "fst (enter s w) = Inr PyNone"
    by (auto simp: enter_def split: prod.splits option.splits)
next
  assume a: "fst (start s w) = None"
  obtain s1 w1 where st: "start s w = (None, s1, w1)"
    using a by (cases "start s w") auto
  have s1: "was_started s1" using start_started [OF a] st by simp
  obtain s2 w2 where d: "deliver sts s1 w1 = (s2, w2)" by (cases "deliver sts s1 w1")
  have "was_started s2" using deliver_started [OF s1, of sts w1] d by simp
  then obtain s3 w3 where c: "close s2 w2 = Some (None, s3, w3)"
    using close_started by blast
  show "\<exists>s2 w2. with_stmt s (map Env sts @ CallBound m # rest) w
                 = Some (Some AttributeError, s2, w2)"
    using st d c
    by (simp add: with_stmt_def enter_def exec_body_deref exit_def truthy_def)
qed

theorem bound_name_is_None_witness:
  "fst (start (LogDbgViewReal (fresh_capture ''L'')) quiet_host) = None
   \<and> fst (enter (LogDbgViewReal (fresh_capture ''L'')) quiet_host) = Inr PyNone
   \<and> (\<exists>s2 w2. with_stmt (LogDbgViewReal (fresh_capture ''L''))
                  (map Env [] @ CallBound M_close # []) quiet_host
                = Some (Some AttributeError, s2, w2))"
proof -
  have a: "fst (start (LogDbgViewReal (fresh_capture ''L'')) quiet_host) = None"
    by (simp add: start_def Thread_start_def Let_def)
  show ?thesis
    using a bound_name_is_None [of "LogDbgViewReal (fresh_capture ''L'')" quiet_host M_close
        LogDbgView quiet_host "[]" "[]", THEN conjunct2, THEN conjunct2, THEN conjunct2,
        rule_format, OF a]
    by simp
qed

end
